theory Spec2Isabelle
  imports Main "HOL-Library.Word" "HOL-Library.Sublist"
begin

unbundle bit_operations_syntax

section \<open>pgp-mfa: the challenge command of main.go\<close>

text \<open>
  A shallow embedding of \<^verbatim>\<open>src/main.go\<close>: the challenge generator
  (\<^verbatim>\<open>generateChallenge\<close>), the encoder (\<^verbatim>\<open>encryptChallenge\<close>) and the command
  \<^verbatim>\<open>challenge\<close> with its verification loop.

  Go's \<^verbatim>\<open>[]byte\<close> and the contents of a Go \<^verbatim>\<open>string\<close> read from standard input are
  lists of 8-bit words. Program text (messages, command-line arguments, armored output)
  is an Isabelle \<open>string\<close>, whose characters are bytes as well. Go's \<^verbatim>\<open>int\<close> is the
  64-bit one of the amd64 build of the README; it is modelled by \<open>int\<close>, and the only
  place where its width shows (the saturation of \<^verbatim>\<open>strconv.Atoi\<close>) is written out.
  A \<^verbatim>\<open>time.Time\<close> is an \<open>int\<close> of nanoseconds, a \<^verbatim>\<open>time.Duration\<close> likewise.
\<close>

type_synonym byte = "8 word"

definition bytes_of :: "string \<Rightarrow> byte list" where
  "bytes_of s = map of_char s"

subsection \<open>Errors\<close>

text \<open>
  \<^verbatim>\<open>ErrChallengeLength\<close> and \<^verbatim>\<open>ErrChallengePow\<close> are the two sentinel values of
  main.go that the command returns. Every other error is made by \<^verbatim>\<open>errors.New\<close> or
  \<^verbatim>\<open>fmt.Errorf\<close> (here and in the libraries) and is known by its message only:
  \<open>ErrorString\<close>. \<open>Panic\<close> is a run-time panic, which is not a returned value in Go.
\<close>

datatype error =
    ErrChallengeLength
  | ErrChallengePow
  | ErrorString string
  | Panic string

fun Error :: "error \<Rightarrow> string" where
  "Error ErrChallengeLength = ''challenge length must be a power of two between 1 and 512''"
| "Error ErrChallengePow = ''challenge length must be a power of two''"
| "Error (ErrorString m) = m"
| "Error (Panic m) = m"

text \<open>\<^verbatim>\<open>fmt.Errorf(prefix + "%v", err)\<close>: a new error whose message is the prefix followed
  by the message of \<^verbatim>\<open>err\<close>.\<close>

definition Errorf :: "string \<Rightarrow> error \<Rightarrow> error" where
  "Errorf msg err = ErrorString (msg @ Error err)"

subsection \<open>The world outside the program\<close>

text \<open>
  What the command calls but does not own is a field of the world:
  \<^item> \<open>stdin\<close>: the bytes of standard input not yet read, and \<open>stdin_err\<close>, the error the
    stream reports once they are used up (\<^verbatim>\<open>io.EOF\<close>, or an I/O error);
  \<^item> \<open>clock\<close>: the reading of the \<open>n\<close>-th call of \<^verbatim>\<open>time.Now()\<close>, \<open>ticks\<close> counting the calls;
  \<^item> \<open>entropy\<close>: the bytes the system random source delivers next, and \<open>entropy_err\<close>,
    the error of \<^verbatim>\<open>rand.Read\<close> when the source cannot fill the buffer;
  \<^item> \<open>keys\<close>: the key repository, the answer of \<^verbatim>\<open>getKey\<close> to a fingerprint
    given the unread standard input (the interactive mode reads a choice from it),
    together with the input left;
  \<^item> \<open>pgp_New\<close>, \<open>pgp_Encrypt\<close>, \<open>pgp_Armor\<close>, \<open>pgp_Bytes\<close>: the gopenpgp calls of
    \<^verbatim>\<open>encryptChallenge\<close>;
  \<^item> \<open>temp_file\<close>: the answer of \<^verbatim>\<open>os.CreateTemp\<close> (the name of the file), and \<open>write_err\<close>,
    that of writing the armored challenge to the file and the terminal;
  \<^item> \<open>trace\<close>: the calls made to these collaborators and the lines printed, in order.
\<close>

datatype event =
    GetKey string
  | RandRead nat
  | PgpNew
  | PgpEncrypt "byte list"
  | PgpArmor
  | CreateTemp
  | WriteArmored string
  | Println string
  | PrintExpiry int
  | Print string
  | RemoveTemp string
  | CloseTemp string

record ('k, 'c, 'm) world =
  stdin :: "byte list"
  stdin_err :: error
  clock :: "nat \<Rightarrow> int"
  ticks :: nat
  entropy :: "byte list"
  entropy_err :: error
  keys :: "string \<Rightarrow> byte list \<Rightarrow> (error + 'k) \<times> byte list"
  pgp_New :: "'k \<Rightarrow> error + 'c"
  pgp_Encrypt :: "'c \<Rightarrow> byte list \<Rightarrow> error + 'm"
  pgp_Armor :: "'m \<Rightarrow> error + string"
  pgp_Bytes :: "'m \<Rightarrow> byte list"
  temp_file :: "error + string"
  write_err :: "error option"
  trace :: "event list"

definition emit :: "event \<Rightarrow> ('k, 'c, 'm) world \<Rightarrow> ('k, 'c, 'm) world" where
  "emit e w = w\<lparr>trace := trace w @ [e]\<rparr>"

subsection \<open>Challenge generator\<close>

text \<open>The constant \<^verbatim>\<open>challengeCharset\<close> of main.go, line 24. In the Go literal
  \<^verbatim>\<open>\\\<close> is one backslash (0x5C) and \<^verbatim>\<open>\"\<close> one double quote (0x22).\<close>

definition challengeCharset :: "byte list" where
  "challengeCharset = bytes_of
     (''abcdefghijklmnopqrstuvwxyzABCDEFGHIJKLMNOPQRSTUVWXYZ0123456789-_+/''
      @ [CHR 0x5C, CHR 0x27, CHR 0x22] @ ''!@#$%^&*()[]{}<>?,.;:'')"

text \<open>\<^verbatim>\<open>rand.Read(buffer)\<close> of crypto/rand: it fills the whole buffer, or it fails.\<close>

definition rand_Read :: "byte list \<Rightarrow> ('k, 'c, 'm) world \<Rightarrow> (error + byte list) \<times> ('k, 'c, 'm) world" where
  "rand_Read buffer w =
     (let n = length buffer; w' = emit (RandRead n) w in
      if n \<le> length (entropy w)
      then (Inr (take n (entropy w)), w'\<lparr>entropy := drop n (entropy w)\<rparr>)
      else (Inl (entropy_err w), w'\<lparr>entropy := []\<rparr>))"

text \<open>The loop of \<^verbatim>\<open>generateChallenge\<close>, lines 180 to 182:
  \<^verbatim>\<open>for i := 0; i < length; i++ { buffer[i] = challengeCharset[buffer[i]%byte(len(challengeCharset))] }\<close>.
  The remainder is taken on bytes; the index is below the length of the charset.\<close>

function charset_loop :: "nat \<Rightarrow> nat \<Rightarrow> byte list \<Rightarrow> byte list" where
  "charset_loop i n buffer =
     (if i < n
      then charset_loop (Suc i) n
             (buffer[i := challengeCharset ! unat (buffer ! i mod of_nat (length challengeCharset))])
      else buffer)"
  by pat_completeness auto
termination
  by (relation "measure (\<lambda>(i, n, buffer). n - i)") auto

declare charset_loop.simps [simp del]

text \<open>
  \<^verbatim>\<open>generateChallenge\<close>, lines 174 to 184. \<^verbatim>\<open>make([]byte, length)\<close> panics with
  \<^verbatim>\<open>runtime error: makeslice: len out of range\<close> when the length is negative or above
  the allocation limit of the runtime, \<^verbatim>\<open>maxAlloc\<close>, which is \<open>2 ^ 48\<close> bytes on amd64.
  Go's \<^verbatim>\<open>int\<close> has 64 bits; an \<open>int\<close> of the model outside that range is no length the
  code can receive, and falls under the panic as well. Below the limit the allocation
  is taken to succeed (the command asks for 512 bytes at most).
\<close>

definition maxAlloc :: int where
  "maxAlloc = 2 ^ 48"

definition generateChallenge ::
  "int \<Rightarrow> ('k, 'c, 'm) world \<Rightarrow> (error + byte list) \<times> ('k, 'c, 'm) world" where
  "generateChallenge len w =
     (if len < 0 \<or> maxAlloc < len
      then (Inl (Panic ''runtime error: makeslice: len out of range''), w)
      else
        case rand_Read (replicate (nat len) 0) w of
          (Inl err, w') \<Rightarrow> (Inl (Errorf ''failed to generate challenge: '' err), w')
        | (Inr buffer, w') \<Rightarrow> (Inr (charset_loop 0 (nat len) buffer), w'))"

subsection \<open>Challenge encoder\<close>

text \<open>\<^verbatim>\<open>encryptChallenge\<close>, lines 186 to 200: build the encryption handle for the one
  recipient, encrypt, armor; each failure is wrapped by \<^verbatim>\<open>fmt.Errorf\<close>.\<close>

definition encryptChallenge ::
  "'k \<Rightarrow> byte list \<Rightarrow> ('k, 'c, 'm) world \<Rightarrow> (error + byte list \<times> string) \<times> ('k, 'c, 'm) world" where
  "encryptChallenge key chal w =
     (let w1 = emit PgpNew w in
      case pgp_New w key of
        Inl err \<Rightarrow> (Inl (Errorf ''failed to create pgp context: '' err), w1)
      | Inr pgpCtx \<Rightarrow>
          (let w2 = emit (PgpEncrypt chal) w1 in
           case pgp_Encrypt w pgpCtx chal of
             Inl err \<Rightarrow> (Inl (Errorf ''failed to encrypt challenge: '' err), w2)
           | Inr encrypted \<Rightarrow>
               (let w3 = emit PgpArmor w2 in
                case pgp_Armor w encrypted of
                  Inl err \<Rightarrow> (Inl (Errorf ''failed to armor challenge: '' err), w3)
                | Inr armored \<Rightarrow> (Inr (pgp_Bytes w encrypted, armored), w3))))"

text \<open>The stage a message of \<^verbatim>\<open>encryptChallenge\<close> names, read off its text.\<close>

datatype stage = ContextStage | EncryptStage | ArmorStage

definition stage_of_message :: "string \<Rightarrow> stage option" where
  "stage_of_message m =
     (if prefix ''failed to create pgp context: '' m then Some ContextStage
      else if prefix ''failed to encrypt challenge: '' m then Some EncryptStage
      else if prefix ''failed to armor challenge: '' m then Some ArmorStage
      else None)"

subsection \<open>Library functions the command calls\<close>

text \<open>
  \<^verbatim>\<open>strconv.Atoi\<close> (Go 1.23, \<^verbatim>\<open>intSize = 64\<close>). A string of 1 to 18 bytes takes the fast
  path: an optional sign, then digits, \<^verbatim>\<open>ch -= '0'; if ch > 9\<close> on bytes being the test for
  a digit. Any other string goes through \<^verbatim>\<open>ParseInt(s, 10, 0)\<close> and \<^verbatim>\<open>ParseUint\<close>, whose
  loop returns the largest value with a range error as soon as the number read so far
  cannot be multiplied by ten, before it looks at the bytes that follow.
\<close>

datatype num_error = ErrSyntax | ErrRange

fun atoi_fast_loop :: "string \<Rightarrow> int \<Rightarrow> int option" where
  "atoi_fast_loop [] n = Some n"
| "atoi_fast_loop (c # cs) n =
     (let ch = (of_char c :: byte) - 48 in
      if ch > 9 then None else atoi_fast_loop cs (n * 10 + uint ch))"

definition maxUint64 :: nat where
  "maxUint64 = 2 ^ 64 - 1"

fun parseUint_loop :: "string \<Rightarrow> nat \<Rightarrow> nat \<times> num_error option" where
  "parseUint_loop [] n = (n, None)"
| "parseUint_loop (c # cs) n =
     (let v = (of_char c :: nat) in
      if \<not> (48 \<le> v \<and> v \<le> 57) then (0, Some ErrSyntax)
      else if n \<ge> maxUint64 div 10 + 1 then (maxUint64, Some ErrRange)
      else
        let n10 = n * 10; n1 = (n10 + (v - 48)) mod 2 ^ 64 in
        if n1 < n10 \<or> n1 > maxUint64 then (maxUint64, Some ErrRange)
        else parseUint_loop cs n1)"

definition ParseUint :: "string \<Rightarrow> nat \<times> num_error option" where
  "ParseUint s = (if s = [] then (0, Some ErrSyntax) else parseUint_loop s 0)"

definition ParseInt :: "string \<Rightarrow> int \<times> num_error option" where
  "ParseInt s0 =
     (if s0 = [] then (0, Some ErrSyntax)
      else
        let neg = (hd s0 = CHR ''-'');
            s = (if hd s0 = CHR ''+'' \<or> hd s0 = CHR ''-'' then tl s0 else s0);
            (un, err) = ParseUint s
        in
        if err = Some ErrSyntax then (0, err)
        else if \<not> neg \<and> un \<ge> 2 ^ 63 then (2 ^ 63 - 1, Some ErrRange)
        else if neg \<and> un > 2 ^ 63 then (- (2 ^ 63), Some ErrRange)
        else (if neg then - int un else int un, None))"

definition Atoi :: "string \<Rightarrow> int \<times> num_error option" where
  "Atoi s0 =
     (if 0 < length s0 \<and> length s0 < 19 then
        let s = (if hd s0 = CHR ''-'' \<or> hd s0 = CHR ''+'' then tl s0 else s0) in
        if length s < 1 then (0, Some ErrSyntax)
        else
          case atoi_fast_loop s 0 of
            None \<Rightarrow> (0, Some ErrSyntax)
          | Some n \<Rightarrow> (if hd s0 = CHR ''-'' then - n else n, None)
      else ParseInt s0)"

text \<open>
  \<^verbatim>\<open>strings.TrimSpace\<close>: it removes the leading and the trailing white space, as
  \<^verbatim>\<open>unicode.IsSpace\<close> defines it, of a string read as UTF-8. \<open>space_runes\<close> lists the
  encodings of the white-space runes: the six ASCII ones, U+0085, U+00A0, U+1680,
  U+2000 to U+200A, U+2028, U+2029, U+202F, U+205F and U+3000. A rune at the front
  (\<^verbatim>\<open>utf8.DecodeRuneInString\<close>) or at the end (\<^verbatim>\<open>utf8.DecodeLastRuneInString\<close>) is white
  space exactly when the string starts, or ends, with one of these encodings; bytes
  that are not valid UTF-8 decode to U+FFFD, which is not white space.
\<close>

definition space_runes :: "byte list list" where
  "space_runes =
     [[0x09], [0x0A], [0x0B], [0x0C], [0x0D], [0x20],
      [0xC2, 0x85], [0xC2, 0xA0], [0xE1, 0x9A, 0x80],
      [0xE2, 0x80, 0x80], [0xE2, 0x80, 0x81], [0xE2, 0x80, 0x82], [0xE2, 0x80, 0x83],
      [0xE2, 0x80, 0x84], [0xE2, 0x80, 0x85], [0xE2, 0x80, 0x86], [0xE2, 0x80, 0x87],
      [0xE2, 0x80, 0x88], [0xE2, 0x80, 0x89], [0xE2, 0x80, 0x8A],
      [0xE2, 0x80, 0xA8], [0xE2, 0x80, 0xA9], [0xE2, 0x80, 0xAF],
      [0xE2, 0x81, 0x9F], [0xE3, 0x80, 0x80]]"

definition leading_space :: "byte list \<Rightarrow> nat" where
  "leading_space s = (case find (\<lambda>r. prefix r s) space_runes of None \<Rightarrow> 0 | Some r \<Rightarrow> length r)"

definition trailing_space :: "byte list \<Rightarrow> nat" where
  "trailing_space s = (case find (\<lambda>r. suffix r s) space_runes of None \<Rightarrow> 0 | Some r \<Rightarrow> length r)"

function TrimLeftSpace :: "byte list \<Rightarrow> byte list" where
  "TrimLeftSpace s =
     (if s = [] \<or> leading_space s = 0 then s else TrimLeftSpace (drop (leading_space s) s))"
  by pat_completeness auto
termination
  by (relation "measure length") auto

declare TrimLeftSpace.simps [simp del]

function TrimRightSpace :: "byte list \<Rightarrow> byte list" where
  "TrimRightSpace s =
     (if s = [] \<or> trailing_space s = 0 then s
      else TrimRightSpace (take (length s - trailing_space s) s))"
  by pat_completeness auto
termination
  by (relation "measure length") auto

declare TrimRightSpace.simps [simp del]

definition TrimSpace :: "byte list \<Rightarrow> byte list" where
  "TrimSpace s = TrimRightSpace (TrimLeftSpace s)"

text \<open>
  \<^verbatim>\<open>subtle.ConstantTimeCompare\<close>: 0 at once when the lengths differ; otherwise the OR of
  the XORs of all pairs of bytes, compared with 0 by \<^verbatim>\<open>ConstantTimeByteEq\<close>, which is
  \<^verbatim>\<open>int((uint32(x^y) - 1) >> 31)\<close>.
\<close>

fun compare_loop :: "byte \<Rightarrow> byte list \<Rightarrow> byte list \<Rightarrow> byte" where
  "compare_loop v (a # x) (b # y) = compare_loop (v OR (a XOR b)) x y"
| "compare_loop v x y = v"

definition ConstantTimeByteEq :: "byte \<Rightarrow> byte \<Rightarrow> int" where
  "ConstantTimeByteEq x y = uint (drop_bit 31 ((ucast (x XOR y) :: 32 word) - 1))"

definition ConstantTimeCompare :: "byte list \<Rightarrow> byte list \<Rightarrow> int" where
  "ConstantTimeCompare x y =
     (if length x \<noteq> length y then 0 else ConstantTimeByteEq (compare_loop 0 x y) 0)"

text \<open>
  \<^verbatim>\<open>bufio.Reader.ReadString(delim)\<close> on standard input: the bytes up to and including the
  first delimiter, with a nil error; when the input ends before a delimiter, the bytes
  read so far together with the error of the stream.
\<close>

fun read_until :: "byte \<Rightarrow> byte list \<Rightarrow> (byte list \<times> byte list) option" where
  "read_until d [] = None"
| "read_until d (b # bs) =
     (if b = d then Some ([b], bs)
      else case read_until d bs of None \<Rightarrow> None | Some (line, rest) \<Rightarrow> Some (b # line, rest))"

definition ReadString ::
  "byte \<Rightarrow> ('k, 'c, 'm) world \<Rightarrow> (byte list \<times> error option) \<times> ('k, 'c, 'm) world" where
  "ReadString delim w =
     (case read_until delim (stdin w) of
        Some (line, rest) \<Rightarrow> ((line, None), w\<lparr>stdin := rest\<rparr>)
      | None \<Rightarrow> ((stdin w, Some (stdin_err w)), w\<lparr>stdin := []\<rparr>))"

text \<open>\<^verbatim>\<open>time.Now()\<close>, and \<^verbatim>\<open>t.Add(d)\<close> and \<^verbatim>\<open>t.Before(u)\<close> on nanoseconds.\<close>

definition time_Now :: "('k, 'c, 'm) world \<Rightarrow> int \<times> ('k, 'c, 'm) world" where
  "time_Now w = (clock w (ticks w), w\<lparr>ticks := Suc (ticks w)\<rparr>)"

definition time_Add :: "int \<Rightarrow> int \<Rightarrow> int" where
  "time_Add t d = t + d"

definition time_Before :: "int \<Rightarrow> int \<Rightarrow> bool" where
  "time_Before t u \<longleftrightarrow> t < u"

subsection \<open>The command\<close>

text \<open>\<^verbatim>\<open>ChallengeSolveTime = time.Duration(time.Minute * 1)\<close>, line 35, in nanoseconds.\<close>

definition ChallengeSolveTime :: int where
  "ChallengeSolveTime = 60 * 1000000000"

text \<open>\<^verbatim>\<open>getKey\<close>, lines 121 to 172, is the key repository: the database and the key parser
  answer through \<open>keys\<close>; the call is recorded, and the interactive mode may use up input.\<close>

definition getKey :: "string \<Rightarrow> ('k, 'c, 'm) world \<Rightarrow> (error + 'k) \<times> ('k, 'c, 'm) world" where
  "getKey fingerprint w =
     (case keys w fingerprint (stdin w) of
        (r, rest) \<Rightarrow> (r, (emit (GetKey fingerprint) w)\<lparr>stdin := rest\<rparr>))"

text \<open>
  The verification loop, lines 250 to 269. \<open>exp\<close> and \<open>challengeBytes\<close> are the local
  variables of \<^verbatim>\<open>challenge\<close> the loop reads. The result is the value \<^verbatim>\<open>challenge\<close> returns
  from inside the loop, or \<open>None\<close> (a nil error) when the loop is left by \<^verbatim>\<open>break\<close>.
  Each successful read takes at least the delimiter from the input, so the loop ends on
  every finite input.
\<close>

function verify_loop ::
  "int \<Rightarrow> byte list \<Rightarrow> ('k, 'c, 'm) world \<Rightarrow> error option \<times> ('k, 'c, 'm) world" where
  "verify_loop exp challengeBytes w =
     (case ReadString 10 (emit (Print ''enter your solution: '') w) of
        ((input, Some err), w1) \<Rightarrow> (Some (Errorf ''failed to read input: '' err), w1)
      | ((input, None), w1) \<Rightarrow>
          if length input = 0 then verify_loop exp challengeBytes w1
          else
            case time_Now w1 of
              (now, w2) \<Rightarrow>
                if time_Before exp now then (Some (ErrorString ''challenge has expired''), w2)
                else if ConstantTimeCompare (TrimSpace input) challengeBytes = 1
                then (None, emit (Println ''challenge solved!'') w2)
                else verify_loop exp challengeBytes (emit (Println ''incorrect!'') w2))"
  by pat_completeness auto
termination
proof -
  have shorter: "length rest < length bs" if "read_until d bs = Some (line, rest)"
    for d :: byte and bs line rest
    using that
    by (induction bs arbitrary: line) (auto split: if_splits option.splits)
  have read: "length (stdin w1) < length (stdin w)"
    if "((input, None), w1) = ReadString 10 (emit e w)"
    for w w1 e input
    using that shorter [of 10 "stdin w"]
    by (auto simp: ReadString_def emit_def split: option.splits)
  have tick: "stdin w2 = stdin w1" if "(now, w2) = time_Now w1"
    for w1 w2 now
    using that by (simp add: time_Now_def)
  have emit_stdin: "stdin (emit e w) = stdin w" for w e
    by (simp add: emit_def)
  show ?thesis
    by (relation "measure (\<lambda>(exp, challengeBytes, w). length (stdin w))")
      (auto simp: emit_stdin dest!: read tick)
qed

declare verify_loop.simps [simp del]

text \<open>
  What \<^verbatim>\<open>challenge\<close> does once the challenge is encrypted, lines 230 to 270: fix the
  expiry, create the temporary file, show the challenge, run the loop. The two deferred
  calls run when the function returns, the later one first.
\<close>

definition run_session ::
  "byte list \<Rightarrow> string \<Rightarrow> ('k, 'c, 'm) world \<Rightarrow> error option \<times> ('k, 'c, 'm) world" where
  "run_session challengeBytes armored w =
     (case time_Now w of
        (now, w1) \<Rightarrow>
          (let exp = time_Add now ChallengeSolveTime in
           case temp_file w1 of
             Inl err \<Rightarrow> (Some (Errorf ''failed to create temp file: '' err), emit CreateTemp w1)
           | Inr tempFile \<Rightarrow>
               (let w2 = emit (WriteArmored (armored @ [CHR 0x0A])) (emit CreateTemp w1);
                    w3 = (if write_err w2 = None
                          then emit (Println (''solve with: gpg -dq --batch < '' @ tempFile)) w2
                          else w2);
                    w4 = emit (PrintExpiry exp) w3
                in
                case verify_loop exp challengeBytes w4 of
                  (r, w5) \<Rightarrow> (r, emit (CloseTemp tempFile) (emit (RemoveTemp tempFile) w5)))))"

text \<open>\<^verbatim>\<open>challenge\<close>, lines 202 to 271. The error of \<^verbatim>\<open>strconv.Atoi\<close> is dropped
  (\<^verbatim>\<open>length, _ := strconv.Atoi(args[0])\<close>); \<^verbatim>\<open>&\<close> is the bitwise AND of Go's \<^verbatim>\<open>int\<close>.\<close>

definition challenge ::
  "string list \<Rightarrow> ('k, 'c, 'm) world \<Rightarrow> error option \<times> ('k, 'c, 'm) world" where
  "challenge args w =
     (if length args < 1
      then (Some (ErrorString ''usage: pgp-mfa challenge <length> [key-id]''), w)
      else
        let len = fst (Atoi (args ! 0)) in
        if len \<le> 0 \<or> len > 512 then (Some ErrChallengeLength, w)
        else if (len AND (len - 1)) \<noteq> 0 then (Some ErrChallengePow, w)
        else
          let fingerprint = (if length args > 1 then args ! 1 else []) in
          (case getKey fingerprint w of
             (Inl err, w1) \<Rightarrow> (Some err, w1)
           | (Inr selectedKey, w1) \<Rightarrow>
               (case generateChallenge len w1 of
                  (Inl err, w2) \<Rightarrow> (Some err, w2)
                | (Inr challengeBytes, w2) \<Rightarrow>
                    (case encryptChallenge selectedKey challengeBytes w2 of
                       (Inl err, w3) \<Rightarrow> (Some err, w3)
                     | (Inr (raw, armored), w3) \<Rightarrow> run_session challengeBytes armored w3))))"

subsection \<open>Vocabulary of the specification\<close>

text \<open>The claims speak of lengths that are powers of two.\<close>

definition power_of_two :: "int \<Rightarrow> bool" where
  "power_of_two n \<longleftrightarrow> (\<exists>k. n = 2 ^ k)"

text \<open>A decimal integer: an optional sign, then at least one digit.\<close>

definition is_digit :: "char \<Rightarrow> bool" where
  "is_digit c \<longleftrightarrow> 48 \<le> (of_char c :: nat) \<and> (of_char c :: nat) \<le> 57"

definition valid_decimal :: "string \<Rightarrow> bool" where
  "valid_decimal s \<longleftrightarrow>
     (let ds = (if s \<noteq> [] \<and> (hd s = CHR ''+'' \<or> hd s = CHR ''-'') then tl s else s)
      in ds \<noteq> [] \<and> list_all is_digit ds)"

text \<open>White space, as \<^verbatim>\<open>strings.TrimSpace\<close> sees it: a sequence of white-space runes.\<close>

definition white_space :: "byte list \<Rightarrow> bool" where
  "white_space s \<longleftrightarrow> (\<exists>rs. set rs \<subseteq> set space_runes \<and> s = concat rs)"

text \<open>The graphic ASCII characters, 0x21 to 0x7E; the continuation bytes of UTF-8; the
  length of an encoding, which its first byte gives.\<close>

definition ascii_graphic :: "byte \<Rightarrow> bool" where
  "ascii_graphic b \<longleftrightarrow> 0x21 \<le> b \<and> b \<le> 0x7E"

definition is_cont :: "byte \<Rightarrow> bool" where
  "is_cont b \<longleftrightarrow> 0x80 \<le> b \<and> b < 0xC0"

definition rune_len :: "byte \<Rightarrow> nat" where
  "rune_len b = (if b < 0x80 then 1 else if b < 0xE0 then 2 else 3)"

subsection \<open>A concrete world for the examples\<close>

text \<open>
  The examples run the command in a small world: the clock gives the listed readings
  in turn (and keeps the last one), the key repository answers every fingerprint with
  a key of that name and reads nothing, the encryption provider fails at the stage
  asked for, if any, and otherwise reverses the plaintext.
\<close>

definition example_clock :: "int list \<Rightarrow> nat \<Rightarrow> int" where
  "example_clock ts n = (if n < length ts then ts ! n else last ts)"

definition example_world ::
  "byte list \<Rightarrow> int list \<Rightarrow> byte list \<Rightarrow> stage option \<Rightarrow> (string, string, byte list) world" where
  "example_world input readings random failing =
     \<lparr> stdin = input,
       stdin_err = ErrorString ''EOF'',
       clock = example_clock readings,
       ticks = 0,
       entropy = random,
       entropy_err = ErrorString ''unexpected EOF'',
       keys = (\<lambda>fingerprint rest. (Inr fingerprint, rest)),
       pgp_New = (\<lambda>key. if failing = Some ContextStage
                            then Inl (ErrorString ''no recipient'') else Inr key),
       pgp_Encrypt = (\<lambda>ctx plain. if failing = Some EncryptStage
                            then Inl (ErrorString ''bad key'') else Inr (rev plain)),
       pgp_Armor = (\<lambda>msg. if failing = Some ArmorStage
                            then Inl (ErrorString ''bad packet'') else Inr ''-----BEGIN PGP MESSAGE-----''),
       pgp_Bytes = (\<lambda>msg. msg),
       temp_file = Inr ''/tmp/pgp-mfa-challenge-1'',
       write_err = None,
       trace = [] \<rparr>"

section \<open>Properties\<close>

subsection \<open>The library functions\<close>

lemma unat_byte_less: "unat (v :: byte) < 256"
  using unsigned_less [of v, where 'a = nat] by simp

lemma unat_ucast_byte: "unat (ucast (v :: byte) :: 32 word) = unat v"
  using unat_byte_less [of v] by (simp add: unsigned_ucast_eq take_bit_nat_eq_self)

lemma drop_bit_31_small: "unat (u :: 32 word) < 2 ^ 31 \<Longrightarrow> drop_bit 31 u = 0"
proof -
  assume "unat u < 2 ^ 31"
  then have "unat u div 2 ^ 31 = 0"
    by simp
  then have "drop_bit 31 (unat u) = 0"
    by (simp only: drop_bit_eq_div)
  then have "unat (drop_bit 31 u) = 0"
    by (simp only: unat_drop_bit_eq)
  then show ?thesis
    by (simp only: unat_0_iff)
qed

lemma xor_byte_zero: "(a :: byte) XOR b = 0 \<longleftrightarrow> a = b"
  by (metis bit.xor_left_self xor.right_neutral)

lemma ConstantTimeByteEq_iff: "ConstantTimeByteEq x y = (if x = y then 1 else 0)"
proof (cases "x = y")
  case True
  then show ?thesis by (simp add: ConstantTimeByteEq_def)
next
  case False
  let ?u = "ucast (x XOR y) :: 32 word"
  have v: "x XOR y \<noteq> 0"
    using False by (simp add: xor_byte_zero)
  then have "?u \<noteq> 0"
    using unat_ucast_byte [of "x XOR y"] by (metis unat_0_iff)
  then have "unat (?u - 1) = unat (x XOR y) - 1"
    by (simp add: unat_minus_one unat_ucast_byte)
  also have "\<dots> < 2 ^ 31"
    using unat_byte_less [of "x XOR y"] by simp
  finally have "drop_bit 31 (?u - 1) = 0"
    by (rule drop_bit_31_small)
  with False show ?thesis by (simp add: ConstantTimeByteEq_def)
qed

lemma compare_loop_zero:
  "length x = length y \<Longrightarrow> compare_loop v x y = 0 \<longleftrightarrow> v = 0 \<and> x = y"
proof (induction x y arbitrary: v rule: list_induct2)
  case Nil
  then show ?case by simp
next
  case (Cons a x b y)
  then show ?case by (auto simp: or_eq_0_iff xor_byte_zero)
qed

lemma ConstantTimeCompare_iff: "ConstantTimeCompare x y = 1 \<longleftrightarrow> x = y"
  by (auto simp: ConstantTimeCompare_def ConstantTimeByteEq_iff compare_loop_zero)

lemma and_even_pred: "0 < m \<Longrightarrow> (2 * int m) AND (2 * int m - 1) = 2 * (int m AND (int m - 1))"
proof -
  assume "0 < m"
  have "(2 * int m) AND (2 * int m - 1) = 2 * ((2 * int m) div 2 AND (2 * int m - 1) div 2)"
    by (subst and_int.rec) simp
  also have "(2 * int m - 1) div 2 = int m - 1" by simp
  finally show ?thesis by simp
qed

lemma and_odd_pred: "(1 + 2 * int m) AND (2 * int m) = 2 * int m"
  by (subst and_int.rec) simp

lemma and_pred_zero_nat:
  "0 < n \<Longrightarrow> (int n AND (int n - 1)) = 0 \<longleftrightarrow> (\<exists>k. n = 2 ^ k)"
proof (induction n rule: less_induct)
  case (less n)
  show ?case
  proof (cases "even n")
    case True
    then obtain m where m: "n = 2 * m" by (auto elim: evenE)
    with less.prems have mpos: "0 < m" by simp
    have "int n AND (int n - 1) = 2 * (int m AND (int m - 1))"
      using and_even_pred [OF mpos] m by simp
    moreover have "(int m AND (int m - 1)) = 0 \<longleftrightarrow> (\<exists>k. m = 2 ^ k)"
      using less.IH [of m] m mpos by simp
    moreover have "(\<exists>k. m = 2 ^ k) \<longleftrightarrow> (\<exists>k. n = 2 ^ k)"
    proof
      assume "\<exists>k. m = 2 ^ k"
      then obtain k where "m = 2 ^ k" ..
      then have "n = 2 ^ Suc k" using m by simp
      then show "\<exists>k. n = 2 ^ k" ..
    next
      assume "\<exists>k. n = 2 ^ k"
      then obtain k where k: "n = 2 ^ k" ..
      with m mpos show "\<exists>k. m = 2 ^ k" by (cases k) auto
    qed
    ultimately show ?thesis by simp
  next
    case False
    then obtain m where m: "n = 2 * m + 1" by (auto elim: oddE)
    have "int n AND (int n - 1) = 2 * int m"
      using and_odd_pred [of m] m by simp
    moreover have "(\<exists>k. n = 2 ^ k) \<longleftrightarrow> m = 0"
    proof
      assume "\<exists>k. n = 2 ^ k"
      then obtain k where k: "n = 2 ^ k" ..
      with False have "k = 0" by (cases k) auto
      with k m show "m = 0" by simp
    next
      assume "m = 0"
      with m have "n = 2 ^ 0" by simp
      then show "\<exists>k. n = 2 ^ k" ..
    qed
    ultimately show ?thesis by simp
  qed
qed

lemma and_pred_zero_iff: "0 < n \<Longrightarrow> (n AND (n - 1)) = 0 \<longleftrightarrow> power_of_two n"
proof -
  assume pos: "0 < n"
  then obtain m where m: "n = int m" and "0 < m"
    by (metis zero_less_imp_eq_int)
  have "(\<exists>k. int m = 2 ^ k) \<longleftrightarrow> (\<exists>k. m = 2 ^ k)"
    by (metis of_nat_numeral of_nat_power of_nat_eq_iff)
  then show ?thesis
    using and_pred_zero_nat [OF \<open>0 < m\<close>] m by (simp add: power_of_two_def)
qed

subsection \<open>Parsing the length\<close>

lemma of_char_less_256: "(of_char c :: nat) < 256"
  by (cases c) simp

lemma sub_48_wraps: "(of_char c :: byte) - 48 = of_nat (of_char c + 208)"
  by (simp add: of_nat_of_char)

lemma wrap_208:
  assumes "(v :: nat) < 256"
  shows "(9 < (v + 208) mod 256) \<longleftrightarrow> \<not> (48 \<le> v \<and> v \<le> 57)"
proof (cases "v < 48")
  case True
  then show ?thesis by simp
next
  case False
  then have "v + 208 = (v - 48) + 256"
    by simp
  then have "(v + 208) mod 256 = (v - 48) mod 256"
    by (simp only: mod_add_self2)
  also have "\<dots> = v - 48"
    using assms by simp
  finally show ?thesis
    using False by auto
qed

lemma fast_digit_test: "((of_char c :: byte) - 48 > 9) \<longleftrightarrow> \<not> is_digit c"
proof -
  have "unat ((of_char c :: byte) - 48) = (of_char c + 208) mod 256"
    by (simp only: sub_48_wraps unat_of_nat) simp
  moreover have "unat (9 :: byte) = 9"
    by simp
  ultimately have "((of_char c :: byte) - 48 > 9) \<longleftrightarrow> 9 < ((of_char c :: nat) + 208) mod 256"
    by (simp only: word_less_nat_alt)
  then show ?thesis
    using wrap_208 [OF of_char_less_256 [of c]] by (simp only: is_digit_def)
qed

lemma atoi_fast_loop_None: "atoi_fast_loop s n = None \<longleftrightarrow> \<not> list_all is_digit s"
  by (induction s arbitrary: n) (simp_all add: Let_def fast_digit_test)

lemma parseUint_loop_invalid:
  "\<not> list_all is_digit cs \<Longrightarrow>
   parseUint_loop cs n = (0, Some ErrSyntax) \<or> parseUint_loop cs n = (maxUint64, Some ErrRange)"
proof (induction cs arbitrary: n)
  case Nil
  then show ?case by simp
next
  case (Cons c cs)
  show ?case
  proof (cases "is_digit c")
    case False
    then show ?thesis by (simp add: is_digit_def Let_def)
  next
    case True
    with Cons.prems have "\<not> list_all is_digit cs" by simp
    then have "parseUint_loop cs m = (0, Some ErrSyntax) \<or> parseUint_loop cs m = (maxUint64, Some ErrRange)"
      for m by (rule Cons.IH)
    then show ?thesis
      by (simp add: Let_def)
  qed
qed

lemma ParseInt_invalid:
  assumes "\<not> valid_decimal s"
  shows "snd (ParseInt s) \<noteq> None \<and> fst (ParseInt s) \<in> {0, 2 ^ 63 - 1, - (2 ^ 63)}"
proof (cases "s = []")
  case True
  then show ?thesis by (simp add: ParseInt_def)
next
  case False
  let ?ds = "if hd s = CHR ''+'' \<or> hd s = CHR ''-'' then tl s else s"
  have nd: "?ds = [] \<or> \<not> list_all is_digit ?ds"
    using assms False by (auto simp: valid_decimal_def Let_def split: if_splits)
  have "ParseUint ?ds = (0, Some ErrSyntax) \<or> ParseUint ?ds = (maxUint64, Some ErrRange)"
    using nd parseUint_loop_invalid [of ?ds 0] by (auto simp: ParseUint_def)
  then show ?thesis
  proof
    assume "ParseUint ?ds = (0, Some ErrSyntax)"
    then show ?thesis
      using False by (simp add: ParseInt_def Let_def)
  next
    assume "ParseUint ?ds = (maxUint64, Some ErrRange)"
    then show ?thesis
      using False by (simp add: ParseInt_def Let_def maxUint64_def)
  qed
qed

lemma Atoi_invalid:
  assumes "\<not> valid_decimal s"
  shows "snd (Atoi s) \<noteq> None \<and> fst (Atoi s) \<in> {0, 2 ^ 63 - 1, - (2 ^ 63)}
         \<and> (length s < 19 \<longrightarrow> fst (Atoi s) = 0)"
proof (cases "0 < length s \<and> length s < 19")
  case True
  define ds where "ds = (if hd s = CHR ''-'' \<or> hd s = CHR ''+'' then tl s else s)"
  have fast: "Atoi s =
      (if length ds < 1 then (0, Some ErrSyntax)
       else case atoi_fast_loop ds 0 of
              None \<Rightarrow> (0, Some ErrSyntax)
            | Some n \<Rightarrow> (if hd s = CHR ''-'' then - n else n, None))"
    using True by (simp add: Atoi_def Let_def ds_def)
  have "ds = [] \<or> \<not> list_all is_digit ds"
    using assms True unfolding valid_decimal_def Let_def ds_def
    by (cases "hd s = CHR ''-''"; cases "hd s = CHR ''+''"; simp)
  then have "ds = [] \<or> atoi_fast_loop ds 0 = None"
    by (simp add: atoi_fast_loop_None)
  then have "Atoi s = (0, Some ErrSyntax)"
    by (auto simp: fast)
  then show ?thesis by simp
next
  case False
  then have "Atoi s = ParseInt s"
    unfolding Atoi_def by (rule if_not_P)
  moreover have "ParseInt s = (0, Some ErrSyntax)" if "length s < 19"
  proof -
    from that False have "s = []" by simp
    then show ?thesis by (simp add: ParseInt_def)
  qed
  ultimately show ?thesis
    using ParseInt_invalid [OF assms] by simp
qed


subsection \<open>Trimming\<close>

lemma space_runes_shape:
  "\<forall>r \<in> set space_runes. r \<noteq> [] \<and> \<not> ascii_graphic (hd r) \<and> \<not> ascii_graphic (last r) \<and> length r = rune_len (hd r)"
  by (simp add: space_runes_def ascii_graphic_def rune_len_def)

lemma find_space_rune:
  "find P space_runes = Some r \<Longrightarrow> r \<in> set space_runes \<and> P r"
  by (auto simp: find_Some_iff)

lemma prefix_hd: "prefix r s \<Longrightarrow> r \<noteq> [] \<Longrightarrow> s \<noteq> [] \<and> hd r = hd s"
  by (cases r; cases s) auto

lemma suffix_last: "suffix r s \<Longrightarrow> r \<noteq> [] \<Longrightarrow> s \<noteq> [] \<and> last r = last s"
  by (auto simp: suffix_def)

lemma leading_space_graphic: "ascii_graphic b \<Longrightarrow> leading_space (b # t) = 0"
proof -
  assume b: "ascii_graphic b"
  have "find (\<lambda>r. prefix r (b # t)) space_runes = None"
  proof (cases "find (\<lambda>r. prefix r (b # t)) space_runes")
    case (Some r)
    then have "r \<in> set space_runes" and "prefix r (b # t)"
      using find_space_rune by blast+
    then have "hd r = b" and "\<not> ascii_graphic (hd r)"
      using prefix_hd [of r "b # t"] space_runes_shape by auto
    with b show ?thesis by simp
  qed simp
  then show ?thesis by (simp add: leading_space_def)
qed

lemma trailing_space_graphic: "ascii_graphic b \<Longrightarrow> trailing_space (t @ [b]) = 0"
proof -
  assume b: "ascii_graphic b"
  have "find (\<lambda>r. suffix r (t @ [b])) space_runes = None"
  proof (cases "find (\<lambda>r. suffix r (t @ [b])) space_runes")
    case (Some r)
    then have "r \<in> set space_runes" and "suffix r (t @ [b])"
      using find_space_rune by blast+
    then have "last r = b" and "\<not> ascii_graphic (last r)"
      using suffix_last [of r "t @ [b]"] space_runes_shape by auto
    with b show ?thesis by simp
  qed simp
  then show ?thesis by (simp add: trailing_space_def)
qed

lemma leading_space_rune:
  assumes "r \<in> set space_runes"
  shows "leading_space (r @ t) = length r"
proof (cases "find (\<lambda>r'. prefix r' (r @ t)) space_runes")
  case None
  then have "\<not> prefix r (r @ t)"
    using assms by (auto simp: find_None_iff)
  then show ?thesis by simp
next
  case (Some r')
  then have r': "r' \<in> set space_runes" and p: "prefix r' (r @ t)"
    using find_space_rune by blast+
  have "r \<noteq> []" "r' \<noteq> []"
    using assms r' space_runes_shape by auto
  then have "hd r' = hd r"
    using prefix_hd [OF p] by simp
  then have "length r' = length r"
    using assms r' space_runes_shape by auto
  with Some show ?thesis by (simp add: leading_space_def)
qed

lemma space_runes_cont:
  "\<forall>r \<in> set space_runes. \<not> is_cont (hd r) \<and> list_all is_cont (tl r)"
  by (simp add: space_runes_def is_cont_def)

lemma shaped_suffix_eq:
  assumes "suffix a b" and "a \<noteq> []" and "\<not> is_cont (hd a)" and "list_all is_cont (tl b)"
  shows "a = b"
proof -
  from assms(1) obtain zs where b: "b = zs @ a"
    by (auto simp: suffix_def)
  show ?thesis
  proof (cases zs)
    case Nil
    with b show ?thesis by simp
  next
    case (Cons z zs')
    with b assms(2) have "hd a \<in> set (tl b)"
      by simp
    with assms(4) have "is_cont (hd a)"
      by (simp add: list_all_iff)
    with assms(3) show ?thesis by simp
  qed
qed

lemma trailing_space_rune:
  assumes "r \<in> set space_runes"
  shows "trailing_space (t @ r) = length r"
proof (cases "find (\<lambda>r'. suffix r' (t @ r)) space_runes")
  case None
  then have "\<not> suffix r (t @ r)"
    using assms by (auto simp: find_None_iff)
  then show ?thesis by (simp add: suffix_def)
next
  case (Some r')
  then have r': "r' \<in> set space_runes" and p: "suffix r' (t @ r)"
    using find_space_rune by blast+
  have ne: "r \<noteq> []" "r' \<noteq> []"
    using assms r' space_runes_shape by auto
  have sh: "\<not> is_cont (hd r)" "list_all is_cont (tl r)" "\<not> is_cont (hd r')" "list_all is_cont (tl r')"
    using assms r' space_runes_cont by auto
  have "suffix r' r \<or> suffix r r'"
    using p by (rule suffix_same_cases) (simp add: suffix_def)
  then have "r' = r"
    using shaped_suffix_eq [of r' r] shaped_suffix_eq [of r r'] ne sh by auto
  with Some show ?thesis by (simp add: trailing_space_def)
qed

lemma TrimLeftSpace_graphic: "s = [] \<or> ascii_graphic (hd s) \<Longrightarrow> TrimLeftSpace s = s"
  by (subst TrimLeftSpace.simps) (cases s; simp add: leading_space_graphic)

lemma TrimRightSpace_graphic: "s = [] \<or> ascii_graphic (last s) \<Longrightarrow> TrimRightSpace s = s"
  by (subst TrimRightSpace.simps) (cases s rule: rev_cases; simp add: trailing_space_graphic)

lemma TrimLeftSpace_runes:
  "set rs \<subseteq> set space_runes \<Longrightarrow> TrimLeftSpace (concat rs @ s) = TrimLeftSpace s"
proof (induction rs)
  case Nil
  then show ?case by simp
next
  case (Cons r rs)
  then have r: "r \<in> set space_runes" and "r \<noteq> []"
    using space_runes_shape by auto
  then have "TrimLeftSpace (r @ concat rs @ s) = TrimLeftSpace (concat rs @ s)"
    by (subst TrimLeftSpace.simps) (simp add: leading_space_rune)
  with Cons show ?case by simp
qed

lemma TrimRightSpace_rune:
  assumes "r \<in> set space_runes"
  shows "TrimRightSpace (t @ r) = TrimRightSpace t"
proof -
  have "r \<noteq> []"
    using assms space_runes_shape by auto
  then show ?thesis
    by (subst TrimRightSpace.simps) (simp add: trailing_space_rune [OF assms])
qed

lemma TrimRightSpace_runes:
  "set rs \<subseteq> set space_runes \<Longrightarrow> TrimRightSpace (s @ concat rs) = TrimRightSpace s"
proof (induction rs rule: rev_induct)
  case Nil
  then show ?case by simp
next
  case (snoc r rs)
  then have r: "r \<in> set space_runes" and "r \<noteq> []"
    using space_runes_shape by auto
  from r have "TrimRightSpace ((s @ concat rs) @ r) = TrimRightSpace (s @ concat rs)"
    by (rule TrimRightSpace_rune)
  with snoc show ?case by simp
qed

lemma TrimSpace_padded:
  assumes "white_space ws1" and "white_space ws2"
    and "s \<noteq> []" and "ascii_graphic (hd s)" and "ascii_graphic (last s)"
  shows "TrimSpace (ws1 @ s @ ws2) = s"
proof -
  from assms(1,2) obtain rs1 rs2
    where 1: "set rs1 \<subseteq> set space_runes" "ws1 = concat rs1"
      and 2: "set rs2 \<subseteq> set space_runes" "ws2 = concat rs2"
    by (auto simp: white_space_def)
  have "TrimLeftSpace (ws1 @ s @ ws2) = TrimLeftSpace (s @ ws2)"
    using 1 by (simp add: TrimLeftSpace_runes)
  also have "\<dots> = s @ ws2"
    using assms(3,4) by (intro TrimLeftSpace_graphic) simp
  finally have "TrimSpace (ws1 @ s @ ws2) = TrimRightSpace (s @ ws2)"
    by (simp add: TrimSpace_def)
  also have "\<dots> = TrimRightSpace s"
    using 2 by (simp add: TrimRightSpace_runes)
  also have "\<dots> = s"
    using assms(5) by (intro TrimRightSpace_graphic) simp
  finally show ?thesis .
qed

lemma charset_graphic: "\<forall>b \<in> set challengeCharset. ascii_graphic b"
  by (simp add: challengeCharset_def bytes_of_def ascii_graphic_def)

subsection \<open>Reading a line\<close>

lemma read_until_found:
  "d \<notin> set line \<Longrightarrow> read_until d (line @ d # rest) = Some (line @ [d], rest)"
  by (induction line) auto

lemma read_until_none: "d \<notin> set bs \<Longrightarrow> read_until d bs = None"
  by (induction bs) auto

lemma read_until_Some:
  "read_until d bs = Some (input, rest) \<Longrightarrow>
   \<exists>line. input = line @ [d] \<and> d \<notin> set line \<and> bs = line @ d # rest"
proof (induction bs arbitrary: input)
  case Nil
  then show ?case by simp
next
  case (Cons b bs)
  show ?case
  proof (cases "b = d")
    case True
    with Cons.prems show ?thesis by auto
  next
    case False
    with Cons.prems obtain l where l: "read_until d bs = Some (l, rest)" and i: "input = b # l"
      by (auto split: option.splits)
    from Cons.IH [OF l] obtain line where "l = line @ [d]" "d \<notin> set line" "bs = line @ d # rest"
      by blast
    with i False have "input = (b # line) @ [d] \<and> d \<notin> set (b # line) \<and> b # bs = (b # line) @ d # rest"
      by simp
    then show ?thesis by blast
  qed
qed

lemma ReadString_line:
  "stdin w = line @ 10 # rest \<Longrightarrow> 10 \<notin> set line \<Longrightarrow>
   ReadString 10 w = ((line @ [10], None), w\<lparr>stdin := rest\<rparr>)"
  by (simp add: ReadString_def read_until_found)

lemma ReadString_error:
  "10 \<notin> set (stdin w) \<Longrightarrow>
   ReadString 10 w = ((stdin w, Some (stdin_err w)), w\<lparr>stdin := []\<rparr>)"
  by (simp add: ReadString_def read_until_none)

subsection \<open>One pass of the verification loop\<close>

lemma verify_loop_read_error:
  "10 \<notin> set (stdin w) \<Longrightarrow>
   verify_loop exp cb w =
     (Some (ErrorString (''failed to read input: '' @ Error (stdin_err w))),
      w\<lparr>stdin := [], trace := trace w @ [Print ''enter your solution: '']\<rparr>)"
  by (subst verify_loop.simps) (simp add: ReadString_error emit_def Errorf_def)

lemma verify_loop_line:
  assumes "stdin w = line @ 10 # rest" and "10 \<notin> set line"
  shows "verify_loop exp cb w =
     (if exp < clock w (ticks w)
      then (Some (ErrorString ''challenge has expired''),
            w\<lparr>stdin := rest, ticks := Suc (ticks w),
              trace := trace w @ [Print ''enter your solution: '']\<rparr>)
      else if TrimSpace (line @ [10]) = cb
      then (None,
            w\<lparr>stdin := rest, ticks := Suc (ticks w),
              trace := trace w @ [Print ''enter your solution: '', Println ''challenge solved!'']\<rparr>)
      else verify_loop exp cb
            (w\<lparr>stdin := rest, ticks := Suc (ticks w),
               trace := trace w @ [Print ''enter your solution: '', Println ''incorrect!'']\<rparr>))"
proof -
  have "ReadString 10 (emit (Print ''enter your solution: '') w) =
          ((line @ [10], None), (emit (Print ''enter your solution: '') w)\<lparr>stdin := rest\<rparr>)"
    using assms by (intro ReadString_line) (simp_all add: emit_def)
  then show ?thesis
    by (subst verify_loop.simps)
      (simp add: emit_def time_Now_def time_Before_def ConstantTimeCompare_iff)
qed

lemma verify_loop_mismatches:
  assumes "\<forall>c \<in> set cands. 10 \<notin> set c \<and> TrimSpace (c @ [10]) \<noteq> cb"
    and "\<forall>i < length cands. clock w (ticks w + i) \<le> exp"
    and "stdin w = concat (map (\<lambda>c. c @ [10]) cands) @ rest"
  shows "verify_loop exp cb w =
         verify_loop exp cb
           (w\<lparr>stdin := rest, ticks := ticks w + length cands,
              trace := trace w @ concat (replicate (length cands)
                         [Print ''enter your solution: '', Println ''incorrect!''])\<rparr>)"
  using assms
proof (induction cands arbitrary: w)
  case Nil
  then have "rest = stdin w" by simp
  then show ?case by simp
next
  case (Cons c cs)
  let ?w1 = "w\<lparr>stdin := concat (map (\<lambda>c. c @ [10]) cs) @ rest, ticks := Suc (ticks w),
               trace := trace w @ [Print ''enter your solution: '', Println ''incorrect!'']\<rparr>"
  have line: "stdin w = c @ 10 # (concat (map (\<lambda>c. c @ [10]) cs) @ rest)" and c: "10 \<notin> set c"
    and neq: "TrimSpace (c @ [10]) \<noteq> cb"
    using Cons.prems by simp_all
  have "clock w (ticks w + 0) \<le> exp"
    using Cons.prems(2) by blast
  then have now: "\<not> exp < clock w (ticks w)"
    by simp
  have "verify_loop exp cb w = verify_loop exp cb ?w1"
    using verify_loop_line [OF line c, of exp cb] now neq by simp
  also have "\<dots> = verify_loop exp cb
       (?w1\<lparr>stdin := rest, ticks := ticks ?w1 + length cs,
          trace := trace ?w1 @ concat (replicate (length cs)
                     [Print ''enter your solution: '', Println ''incorrect!''])\<rparr>)"
  proof (rule Cons.IH)
    show "\<forall>c \<in> set cs. 10 \<notin> set c \<and> TrimSpace (c @ [10]) \<noteq> cb"
      using Cons.prems(1) by simp
    show "\<forall>i < length cs. clock ?w1 (ticks ?w1 + i) \<le> exp"
    proof (intro allI impI)
      fix i assume "i < length cs"
      then have "clock w (ticks w + Suc i) \<le> exp"
        using Cons.prems(2) by auto
      then show "clock ?w1 (ticks ?w1 + i) \<le> exp" by simp
    qed
    show "stdin ?w1 = concat (map (\<lambda>c. c @ [10]) cs) @ rest"
      by simp
  qed
  finally show ?case by simp
qed


subsection \<open>The generator\<close>

lemma length_challengeCharset: "length challengeCharset = 90"
  by (simp add: challengeCharset_def bytes_of_def)

lemma charset_loop_map:
  "length buffer = n \<Longrightarrow> i \<le> n \<Longrightarrow>
   charset_loop i n buffer = take i buffer @ map (\<lambda>b. challengeCharset ! unat (b mod 90)) (drop i buffer)"
proof (induction i n buffer rule: charset_loop.induct)
  case (1 i n buffer)
  show ?case
  proof (cases "i < n")
    case True
    let ?g = "\<lambda>b. challengeCharset ! unat (b mod 90)"
    let ?b' = "buffer[i := ?g (buffer ! i)]"
    have "charset_loop i n buffer = charset_loop (Suc i) n ?b'"
      using True by (subst charset_loop.simps) (simp add: length_challengeCharset)
    also have "\<dots> = take (Suc i) ?b' @ map ?g (drop (Suc i) ?b')"
      using "1.IH" [OF True] "1.prems" True by (simp add: length_challengeCharset)
    also have "\<dots> = take i buffer @ map ?g (drop i buffer)"
      using "1.prems" True
      by (simp add: take_Suc_conv_app_nth Cons_nth_drop_Suc [symmetric])
    finally show ?thesis .
  next
    case False
    with "1.prems" show ?thesis by (subst charset_loop.simps) simp
  qed
qed

lemma unat_mod_90: "unat ((b :: byte) mod 90) = unat b mod 90"
proof -
  have "unat (b mod 90) = unat b mod unat (90 :: byte)"
    by (rule unat_mod)
  also have "unat (90 :: byte) = 90"
    by simp
  finally show ?thesis .
qed

lemma generateChallenge_ok:
  assumes "0 \<le> L" and "L \<le> maxAlloc" and "nat L \<le> length (entropy w)"
  shows "generateChallenge L w =
           (Inr (map (\<lambda>b. challengeCharset ! (unat b mod 90)) (take (nat L) (entropy w))),
            (emit (RandRead (nat L)) w)\<lparr>entropy := drop (nat L) (entropy w)\<rparr>)"
  using assms by (simp add: generateChallenge_def rand_Read_def Let_def charset_loop_map unat_mod_90)

lemma charset_in_alphabet: "challengeCharset ! (unat (b :: byte) mod 90) \<in> set challengeCharset"
  by (rule nth_mem) (simp add: length_challengeCharset)

text \<open>
  C2, amended. The alphabet of main.go has 90 characters, not 91, and the random bytes
  are reduced modulo 90. For every valid length \<open>L\<close> (a power of two with
  \<open>1 \<le> L \<le> 512\<close>), when the random source delivers \<open>L\<close> bytes,
  \<^verbatim>\<open>generateChallenge(L)\<close> returns exactly \<open>L\<close> bytes, the \<open>i\<close>-th being the character
  of the 90-character alphabet at the index \<open>random byte i mod 90\<close>; every byte returned
  is a character of that alphabet.
\<close>

theorem generateChallenge_alphabet:
  assumes "power_of_two L" and "1 \<le> L" and "L \<le> 512"
    and "nat L \<le> length (entropy w)"
  shows "\<exists>bs. fst (generateChallenge L w) = Inr bs \<and> length bs = nat L
           \<and> bs = map (\<lambda>b. challengeCharset ! (unat b mod length challengeCharset))
                    (take (nat L) (entropy w))
           \<and> set bs \<subseteq> set challengeCharset
           \<and> length challengeCharset = 90 \<and> distinct challengeCharset"
proof -
  let ?bs = "map (\<lambda>b. challengeCharset ! (unat b mod 90)) (take (nat L) (entropy w))"
  have "0 \<le> L" and "L \<le> maxAlloc"
    using assms(2,3) by (simp_all add: maxAlloc_def)
  then have "fst (generateChallenge L w) = Inr ?bs"
    using assms(4) by (simp add: generateChallenge_ok)
  moreover have "length ?bs = nat L"
    using assms(4) by simp
  moreover have "set ?bs \<subseteq> set challengeCharset"
    using charset_in_alphabet by auto
  moreover have "distinct challengeCharset"
    by (simp add: challengeCharset_def bytes_of_def)
  ultimately show ?thesis
    by (simp add: length_challengeCharset)
qed

text \<open>The length 4 and the random bytes 0, 90, 91 and 255.\<close>

theorem generateChallenge_alphabet_witness:
  "power_of_two 4 \<and> (1 :: int) \<le> 4 \<and> (4 :: int) \<le> 512
   \<and> nat 4 \<le> length (entropy (example_world [] [0] [0, 90, 91, 255] None))
   \<and> fst (generateChallenge 4 (example_world [] [0] [0, 90, 91, 255] None))
       = Inr [0x61, 0x61, 0x62, 0x26]"
proof -
  have p: "power_of_two 4"
    using and_pred_zero_iff [of 4] by simp
  have e: "nat 4 \<le> length (entropy (example_world [] [0] [0, 90, 91, 255] None))"
    by (simp add: example_world_def)
  from generateChallenge_alphabet [OF p _ _ e] p
  show ?thesis
    by (simp add: example_world_def length_challengeCharset challengeCharset_def bytes_of_def)
qed

text \<open>The claim as stated fails: the alphabet has 90 characters, and the random byte 90
  is reduced to the index 0, the letter a, where an alphabet of 91 characters would
  have a character of its own at the index 90.\<close>

theorem generateChallenge_alphabet_counterexample:
  "length challengeCharset \<noteq> 91
   \<and> fst (generateChallenge 1 (example_world [] [0] [90] None)) = Inr [challengeCharset ! 0]"
  using generateChallenge_ok [of 1 "example_world [] [0] [90] None"]
  by (simp add: example_world_def length_challengeCharset maxAlloc_def)

subsection \<open>The verification loop\<close>

lemma read_until_None_iff: "read_until d bs = None \<longleftrightarrow> d \<notin> set bs"
  by (induction bs) (auto split: option.splits)

lemma ReadString_failed:
  assumes "fst (ReadString 10 w) = (input, Some err)"
  shows "10 \<notin> set (stdin w) \<and> err = stdin_err w \<and> input = stdin w"
  using assms
  by (auto simp: ReadString_def read_until_None_iff [symmetric] split: option.splits)

text \<open>
  C9. A failed read ends the loop. Whenever \<^verbatim>\<open>ReadString\<close> reports an error (the input
  ended, or failed, before a newline; the bytes read so far are dropped), the loop
  returns at once the error \<^verbatim>\<open>failed to read input: ...\<close> that carries the message of the
  read error. The world it leaves shows that nothing else was done for that attempt:
  the prompt is the only line printed, and the clock was not read (\<open>ticks\<close> is
  unchanged), so there was neither an expiry check nor a comparison, and no retry.
\<close>

theorem read_error_ends_loop:
  assumes "fst (ReadString 10 w) = (input, Some err)"
  shows "verify_loop exp challengeBytes w =
           (Some (ErrorString (''failed to read input: '' @ Error err)),
            w\<lparr>stdin := [], trace := trace w @ [Print ''enter your solution: '']\<rparr>)"
  using ReadString_failed [OF assms] by (simp add: verify_loop_read_error)

text \<open>
  The input \<^verbatim>\<open>ab\<close> without a newline, against the secret \<^verbatim>\<open>ab\<close>: the read fails with EOF.
\<close>

theorem read_error_ends_loop_witness:
  "fst (ReadString 10 (example_world [0x61, 0x62] [0, 5] [] None))
     = ([0x61, 0x62], Some (ErrorString ''EOF''))
   \<and> fst (verify_loop 100 [0x61, 0x62] (example_world [0x61, 0x62] [0, 5] [] None))
     = Some (ErrorString ''failed to read input: EOF'')
   \<and> ticks (snd (verify_loop 100 [0x61, 0x62] (example_world [0x61, 0x62] [0, 5] [] None))) = 0"
  using read_error_ends_loop [of "example_world [0x61, 0x62] [0, 5] [] None"
      "[0x61, 0x62]" "ErrorString ''EOF''" 100 "[0x61, 0x62]"]
  by (simp add: example_world_def ReadString_def)

text \<open>
  C1, amended. The expiry is checked before the candidate is compared, and the test is
  \<^verbatim>\<open>exp.Before(time.Now())\<close>: for every candidate line read at a time \<open>t\<close> strictly after
  \<open>exp\<close>, the loop ends with the error \<^verbatim>\<open>challenge has expired\<close>, whatever the candidate and
  the secret are. The result does not mention the secret, and no verdict is printed:
  the comparison is made only when the session has not expired.
\<close>

theorem expired_before_compare:
  assumes "stdin w = line @ 10 # rest" and "10 \<notin> set line"
    and "exp < clock w (ticks w)"
  shows "verify_loop exp challengeBytes w =
           (Some (ErrorString ''challenge has expired''),
            w\<lparr>stdin := rest, ticks := Suc (ticks w),
              trace := trace w @ [Print ''enter your solution: '']\<rparr>)"
  using assms by (simp add: verify_loop_line)

text \<open>
  The correct candidate \<^verbatim>\<open>ab\<close>, one nanosecond late.
\<close>

theorem expired_before_compare_witness:
  "stdin (example_world [0x61, 0x62, 0x0A] [101] [] None) = [0x61, 0x62] @ 10 # []
   \<and> 10 \<notin> set [0x61, 0x62 :: byte]
   \<and> 100 < clock (example_world [0x61, 0x62, 0x0A] [101] [] None)
               (ticks (example_world [0x61, 0x62, 0x0A] [101] [] None))
   \<and> fst (verify_loop 100 [0x61, 0x62] (example_world [0x61, 0x62, 0x0A] [101] [] None))
       = Some (ErrorString ''challenge has expired'')
   \<and> trace (snd (verify_loop 100 [0x61, 0x62] (example_world [0x61, 0x62, 0x0A] [101] [] None)))
       = [Print ''enter your solution: '']"
  using expired_before_compare [of "example_world [0x61, 0x62, 0x0A] [101] [] None"
      "[0x61, 0x62]" "[]" 100 "[0x61, 0x62]"]
  by (simp add: example_world_def example_clock_def)

text \<open>
  The claim as stated fails at \<open>t = expiresAt\<close>: the correct candidate read at the very
  instant of expiry is compared and accepted.
\<close>

lemma TrimSpace_ab: "TrimSpace [0x61, 0x62, 0x0A] = [0x61, 0x62]"
  by code_simp

theorem expired_before_compare_counterexample:
  "clock (example_world [0x61, 0x62, 0x0A] [100] [] None)
         (ticks (example_world [0x61, 0x62, 0x0A] [100] [] None)) \<ge> 100
   \<and> fst (verify_loop 100 [0x61, 0x62] (example_world [0x61, 0x62, 0x0A] [100] [] None)) = None"
  using verify_loop_line [of "example_world [0x61, 0x62, 0x0A] [100] [] None"
      "[0x61, 0x62]" "[]" 100 "[0x61, 0x62]"] TrimSpace_ab
  by (simp add: example_world_def example_clock_def)

text \<open>
  C5. A candidate line read while the session has not expired is accepted exactly when
  its trimmed bytes equal the secret: then the loop prints \<^verbatim>\<open>challenge solved!\<close> and ends
  with a nil error; otherwise it prints \<^verbatim>\<open>incorrect!\<close> and goes on with the next line. In
  particular a line that is a secret of the generator (non-empty, over the charset)
  between white space is accepted.
\<close>

theorem matched_iff_trimmed_equal:
  assumes "stdin w = line @ 10 # rest" and "10 \<notin> set line"
    and "\<not> exp < clock w (ticks w)"
  shows "(if TrimSpace (line @ [10]) = challengeBytes
          then verify_loop exp challengeBytes w =
                 (None, w\<lparr>stdin := rest, ticks := Suc (ticks w),
                          trace := trace w @ [Print ''enter your solution: '',
                                              Println ''challenge solved!'']\<rparr>)
          else verify_loop exp challengeBytes w =
                 verify_loop exp challengeBytes
                   (w\<lparr>stdin := rest, ticks := Suc (ticks w),
                      trace := trace w @ [Print ''enter your solution: '',
                                          Println ''incorrect!'']\<rparr>))
         \<and> (\<forall>ws1 ws2. white_space ws1 \<and> white_space ws2
               \<and> line @ [10] = ws1 @ challengeBytes @ ws2
               \<and> challengeBytes \<noteq> [] \<and> set challengeBytes \<subseteq> set challengeCharset
             \<longrightarrow> fst (verify_loop exp challengeBytes w) = None)"
proof (intro conjI allI impI)
  show "if TrimSpace (line @ [10]) = challengeBytes
        then verify_loop exp challengeBytes w =
               (None, w\<lparr>stdin := rest, ticks := Suc (ticks w),
                        trace := trace w @ [Print ''enter your solution: '',
                                            Println ''challenge solved!'']\<rparr>)
        else verify_loop exp challengeBytes w =
               verify_loop exp challengeBytes
                 (w\<lparr>stdin := rest, ticks := Suc (ticks w),
                    trace := trace w @ [Print ''enter your solution: '',
                                        Println ''incorrect!'']\<rparr>)"
    using assms by (simp add: verify_loop_line)
next
  fix ws1 ws2
  assume a: "white_space ws1 \<and> white_space ws2 \<and> line @ [10] = ws1 @ challengeBytes @ ws2
             \<and> challengeBytes \<noteq> [] \<and> set challengeBytes \<subseteq> set challengeCharset"
  then have "hd challengeBytes \<in> set challengeCharset"
    and "last challengeBytes \<in> set challengeCharset"
    using hd_in_set [of challengeBytes] last_in_set [of challengeBytes] by auto
  then have "ascii_graphic (hd challengeBytes)" and "ascii_graphic (last challengeBytes)"
    using charset_graphic by auto
  with a have "TrimSpace (line @ [10]) = challengeBytes"
    by (simp add: TrimSpace_padded)
  then show "fst (verify_loop exp challengeBytes w) = None"
    using assms by (simp add: verify_loop_line)
qed

lemma white_space_examples: "white_space [0x20, 0x09]" "white_space [0xC2, 0xA0, 0x0D, 0x0A]"
proof -
  have "set [[0x20], [0x09 :: byte]] \<subseteq> set space_runes \<and> [0x20, 0x09] = concat [[0x20], [0x09 :: byte]]"
    by (simp add: space_runes_def)
  then show "white_space [0x20, 0x09]"
    unfolding white_space_def by blast
  have "set [[0xC2, 0xA0], [0x0D], [0x0A :: byte]] \<subseteq> set space_runes
        \<and> [0xC2, 0xA0, 0x0D, 0x0A] = concat [[0xC2, 0xA0], [0x0D], [0x0A :: byte]]"
    by (simp add: space_runes_def)
  then show "white_space [0xC2, 0xA0, 0x0D, 0x0A]"
    unfolding white_space_def by blast
qed

text \<open>
  The secret \<^verbatim>\<open>a+\<close>, typed after a space and a tab and followed by a no-break space and
  a carriage return.
\<close>

theorem matched_iff_trimmed_equal_witness:
  "fst (verify_loop 100 [0x61, 0x2B]
         (example_world [0x20, 0x09, 0x61, 0x2B, 0xC2, 0xA0, 0x0D, 0x0A, 0x7A] [100] [] None)) = None
   \<and> TrimSpace [0x20, 0x09, 0x61, 0x2B, 0xC2, 0xA0, 0x0D, 0x0A] = [0x61, 0x2B]
   \<and> trace (snd (verify_loop 100 [0x61, 0x2B]
         (example_world [0x20, 0x09, 0x61, 0x2B, 0xC2, 0xA0, 0x0D, 0x0A, 0x7A] [100] [] None)))
       = [Print ''enter your solution: '', Println ''challenge solved!'']"
proof -
  let ?w = "example_world [0x20, 0x09, 0x61, 0x2B, 0xC2, 0xA0, 0x0D, 0x0A, 0x7A] [100] [] None"
  have 1: "stdin ?w = [0x20, 0x09, 0x61, 0x2B, 0xC2, 0xA0, 0x0D] @ 10 # [0x7A]"
    and 2: "10 \<notin> set [0x20, 0x09, 0x61, 0x2B, 0xC2, 0xA0, 0x0D :: byte]"
    and 3: "\<not> 100 < clock ?w (ticks ?w)"
    by (simp_all add: example_world_def example_clock_def)
  have 4: "white_space [0x20, 0x09] \<and> white_space [0xC2, 0xA0, 0x0D, 0x0A]
           \<and> [0x20, 0x09, 0x61, 0x2B, 0xC2, 0xA0, 0x0D] @ [10]
               = [0x20, 0x09] @ [0x61, 0x2B] @ [0xC2, 0xA0, 0x0D, 0x0A]
           \<and> [0x61, 0x2B :: byte] \<noteq> [] \<and> set [0x61, 0x2B] \<subseteq> set challengeCharset"
    by (simp add: white_space_examples challengeCharset_def bytes_of_def)
  have 5: "TrimSpace [0x20, 0x09, 0x61, 0x2B, 0xC2, 0xA0, 0x0D, 0x0A] = [0x61, 0x2B]"
    by code_simp
  from matched_iff_trimmed_equal [OF 1 2 3, of "[0x61, 0x2B]"] 4 5
  show ?thesis by (simp add: example_world_def)
qed

text \<open>
  C4. Mismatches loop back, a match ends the loop. After any number of candidates that
  do not match, each read while the session has not expired, the loop is where it
  started: it runs on with the same expiry and the same secret, the world changed only
  by the lines read, the clock readings taken and the \<^verbatim>\<open>incorrect!\<close> verdicts printed.
  There is no bound on the number of such candidates. The first candidate that
  matches, read in time, ends the loop with a nil error after \<^verbatim>\<open>challenge solved!\<close>.
\<close>

theorem retry_until_matched:
  assumes "\<forall>c \<in> set cands. 10 \<notin> set c \<and> TrimSpace (c @ [10]) \<noteq> challengeBytes"
    and "\<forall>i \<le> length cands. clock w (ticks w + i) \<le> exp"
    and "10 \<notin> set good" and "TrimSpace (good @ [10]) = challengeBytes"
    and "stdin w = concat (map (\<lambda>c. c @ [10]) cands) @ good @ 10 # rest"
  shows "verify_loop exp challengeBytes w =
           verify_loop exp challengeBytes
             (w\<lparr>stdin := good @ 10 # rest, ticks := ticks w + length cands,
                trace := trace w @ concat (replicate (length cands)
                           [Print ''enter your solution: '', Println ''incorrect!''])\<rparr>)
         \<and> verify_loop exp challengeBytes w =
             (None,
              w\<lparr>stdin := rest, ticks := ticks w + length cands + 1,
                trace := trace w @ concat (replicate (length cands)
                           [Print ''enter your solution: '', Println ''incorrect!''])
                         @ [Print ''enter your solution: '', Println ''challenge solved!'']\<rparr>)"
proof -
  let ?wn = "w\<lparr>stdin := good @ 10 # rest, ticks := ticks w + length cands,
                trace := trace w @ concat (replicate (length cands)
                           [Print ''enter your solution: '', Println ''incorrect!''])\<rparr>"
  have t: "\<forall>i < length cands. clock w (ticks w + i) \<le> exp"
    using assms(2) by simp
  have loop: "verify_loop exp challengeBytes w = verify_loop exp challengeBytes ?wn"
    by (rule verify_loop_mismatches [OF assms(1) t assms(5)])
  have "\<not> exp < clock ?wn (ticks ?wn)"
    using assms(2) by (simp add: not_less)
  moreover have "stdin ?wn = good @ 10 # rest"
    by simp
  ultimately have "verify_loop exp challengeBytes ?wn =
      (None, ?wn\<lparr>stdin := rest, ticks := Suc (ticks ?wn),
                 trace := trace ?wn @ [Print ''enter your solution: '',
                                       Println ''challenge solved!'']\<rparr>)"
    using assms(3,4) by (simp add: verify_loop_line)
  with loop show ?thesis by simp
qed

text \<open>
  Three mismatches (a wrong letter, an empty line, the secret with a letter too many),
  then the secret.
\<close>

lemma TrimSpace_examples:
  "TrimSpace [0x78, 0x0A] = [0x78]" "TrimSpace [0x0A] = []"
  "TrimSpace [0x61, 0x62, 0x63, 0x0A] = [0x61, 0x62, 0x63]"
  "TrimSpace [0x61, 0x62, 0x0A] = [0x61, 0x62]"
  by code_simp+

theorem retry_until_matched_witness:
  "fst (verify_loop 100 [0x61, 0x62]
         (example_world [0x78, 0x0A, 0x0A, 0x61, 0x62, 0x63, 0x0A, 0x61, 0x62, 0x0A]
            [10, 20, 30, 100] [] None)) = None
   \<and> trace (snd (verify_loop 100 [0x61, 0x62]
         (example_world [0x78, 0x0A, 0x0A, 0x61, 0x62, 0x63, 0x0A, 0x61, 0x62, 0x0A]
            [10, 20, 30, 100] [] None)))
     = [Print ''enter your solution: '', Println ''incorrect!'',
        Print ''enter your solution: '', Println ''incorrect!'',
        Print ''enter your solution: '', Println ''incorrect!'',
        Print ''enter your solution: '', Println ''challenge solved!'']"
proof -
  let ?w = "example_world [0x78, 0x0A, 0x0A, 0x61, 0x62, 0x63, 0x0A, 0x61, 0x62, 0x0A]
              [10, 20, 30, 100] [] None"
  let ?cands = "[[0x78], [], [0x61, 0x62, 0x63]] :: byte list list"
  have 1: "\<forall>c \<in> set ?cands. 10 \<notin> set c \<and> TrimSpace (c @ [10]) \<noteq> [0x61, 0x62]"
    by (simp add: TrimSpace_examples)
  have 2: "\<forall>i \<le> length ?cands. clock ?w (ticks ?w + i) \<le> 100"
  proof (intro allI impI)
    fix i :: nat assume "i \<le> length ?cands"
    then have "i = 0 \<or> i = 1 \<or> i = 2 \<or> i = 3" by auto
    then show "clock ?w (ticks ?w + i) \<le> 100"
      by (auto simp: example_world_def example_clock_def)
  qed
  have 3: "10 \<notin> set [0x61, 0x62 :: byte]"
    and 4: "TrimSpace ([0x61, 0x62] @ [10]) = [0x61, 0x62]"
    and 5: "stdin ?w = concat (map (\<lambda>c. c @ [10]) ?cands) @ [0x61, 0x62] @ 10 # []"
    by (simp_all add: TrimSpace_examples example_world_def)
  from retry_until_matched [OF 1 2 3 4 5, THEN conjunct2]
  show ?thesis by (simp add: example_world_def)
qed

lemma run_session_loop:
  assumes "temp_file w = Inr name"
  shows "run_session challengeBytes armored w =
           (case verify_loop (clock w (ticks w) + ChallengeSolveTime) challengeBytes
                 (w\<lparr>ticks := Suc (ticks w),
                    trace := trace w @ [CreateTemp, WriteArmored (armored @ [CHR 0x0A])]
                      @ (if write_err w = None
                         then [Println (''solve with: gpg -dq --batch < '' @ name)] else [])
                      @ [PrintExpiry (clock w (ticks w) + ChallengeSolveTime)]\<rparr>) of
              (r, w') \<Rightarrow> (r, w'\<lparr>trace := trace w' @ [RemoveTemp name, CloseTemp name]\<rparr>))"
  using assms
  by (simp add: run_session_def time_Now_def time_Add_def emit_def Let_def split: prod.splits)

lemma verify_loop_keeps_trace:
  "set (trace w) \<subseteq> set (trace (snd (verify_loop exp cb w)))"
proof (induction exp cb w rule: verify_loop.induct)
  case (1 exp cb w)
  show ?case
  proof (cases "read_until 10 (stdin w)")
    case None
    then show ?thesis
      by (subst verify_loop.simps) (auto simp: ReadString_def emit_def)
  next
    case (Some a)
    then obtain input rest where r: "read_until 10 (stdin w) = Some (input, rest)"
      by (cases a) auto
    let ?w1 = "(emit (Print ''enter your solution: '') w)\<lparr>stdin := rest\<rparr>"
    have rs: "ReadString 10 (emit (Print ''enter your solution: '') w) = ((input, None), ?w1)"
      using r by (simp add: ReadString_def emit_def)
    have ne: "input \<noteq> []"
      using read_until_Some [OF r] by auto
    show ?thesis
    proof (cases "\<not> time_Before exp (clock w (ticks w))
                  \<and> ConstantTimeCompare (TrimSpace input) cb \<noteq> 1")
      case True
      let ?w2 = "?w1\<lparr>ticks := Suc (ticks ?w1)\<rparr>"
      have tn: "(clock w (ticks w), ?w2) = time_Now ?w1"
        by (simp add: time_Now_def emit_def)
      have len: "length input \<noteq> 0"
        using ne by simp
      have "set (trace (emit (Println ''incorrect!'') ?w2))
              \<subseteq> set (trace (snd (verify_loop exp cb (emit (Println ''incorrect!'') ?w2))))"
        using True
        by (intro "1.IH"(2) [OF rs [symmetric] refl refl len tn]) simp_all
      moreover have "verify_loop exp cb w = verify_loop exp cb (emit (Println ''incorrect!'') ?w2)"
        using True ne rs
        by (subst verify_loop.simps) (simp add: time_Now_def emit_def)
      ultimately show ?thesis
        by (auto simp: emit_def)
    next
      case False
      then show ?thesis
        using ne rs
        by (subst verify_loop.simps) (auto simp: time_Now_def emit_def)
    qed
  qed
qed

text \<open>
  C7. The expiry is fixed when the session is created. \<^verbatim>\<open>challenge\<close> reads the clock once
  before the loop, and the expiry is that reading plus \<^verbatim>\<open>ChallengeSolveTime\<close>, one minute;
  it is the instant announced on the terminal. However many mismatches came before, a
  candidate is rejected as expired exactly when it is read after that same instant,
  and accepted if it is correct and read no later: retries do not move the expiry.
\<close>

theorem expiry_fixed_at_creation:
  assumes "temp_file w = Inr name"
    and "\<forall>c \<in> set cands. 10 \<notin> set c \<and> TrimSpace (c @ [10]) \<noteq> challengeBytes"
    and "\<forall>i < length cands. clock w (ticks w + 1 + i) \<le> clock w (ticks w) + ChallengeSolveTime"
    and "10 \<notin> set line"
    and "stdin w = concat (map (\<lambda>c. c @ [10]) cands) @ line @ 10 # rest"
  shows "ChallengeSolveTime = 60000000000
         \<and> PrintExpiry (clock w (ticks w) + ChallengeSolveTime)
             \<in> set (trace (snd (run_session challengeBytes armored w)))
         \<and> (clock w (ticks w) + ChallengeSolveTime < clock w (ticks w + 1 + length cands)
              \<longrightarrow> fst (run_session challengeBytes armored w)
                    = Some (ErrorString ''challenge has expired''))
         \<and> (clock w (ticks w + 1 + length cands) \<le> clock w (ticks w) + ChallengeSolveTime
              \<and> TrimSpace (line @ [10]) = challengeBytes
              \<longrightarrow> fst (run_session challengeBytes armored w) = None)"
proof -
  let ?exp = "clock w (ticks w) + ChallengeSolveTime"
  let ?w0 = "w\<lparr>ticks := Suc (ticks w),
                trace := trace w @ [CreateTemp, WriteArmored (armored @ [CHR 0x0A])]
                  @ (if write_err w = None
                     then [Println (''solve with: gpg -dq --batch < '' @ name)] else [])
                  @ [PrintExpiry ?exp]\<rparr>"
  let ?wn = "?w0\<lparr>stdin := line @ 10 # rest, ticks := ticks ?w0 + length cands,
                trace := trace ?w0 @ concat (replicate (length cands)
                           [Print ''enter your solution: '', Println ''incorrect!''])\<rparr>"
  have session: "run_session challengeBytes armored w =
      (case verify_loop ?exp challengeBytes ?w0 of
         (r, w') \<Rightarrow> (r, w'\<lparr>trace := trace w' @ [RemoveTemp name, CloseTemp name]\<rparr>))"
    by (rule run_session_loop [OF assms(1)])
  have "PrintExpiry ?exp \<in> set (trace ?w0)"
    by simp
  then have "PrintExpiry ?exp \<in> set (trace (snd (verify_loop ?exp challengeBytes ?w0)))"
    using verify_loop_keeps_trace by blast
  moreover obtain r w' where vl: "verify_loop ?exp challengeBytes ?w0 = (r, w')"
    by (cases "verify_loop ?exp challengeBytes ?w0")
  ultimately have "PrintExpiry ?exp \<in> set (trace w')"
    by (simp only: snd_conv)
  then have shown: "PrintExpiry ?exp \<in> set (trace (snd (run_session challengeBytes armored w)))"
    by (simp only: session vl) simp
  have t: "\<forall>i < length cands. clock ?w0 (ticks ?w0 + i) \<le> ?exp"
    using assms(3) by simp
  have i: "stdin ?w0 = concat (map (\<lambda>c. c @ [10]) cands) @ line @ 10 # rest"
    using assms(5) by simp
  have loop: "verify_loop ?exp challengeBytes ?w0 = verify_loop ?exp challengeBytes ?wn"
    by (rule verify_loop_mismatches [OF assms(2) t i])
  have last: "stdin ?wn = line @ 10 # rest"
    by simp
  have now: "clock ?wn (ticks ?wn) = clock w (ticks w + 1 + length cands)"
    by simp
  have late: "fst (run_session challengeBytes armored w) = Some (ErrorString ''challenge has expired'')"
    if "?exp < clock w (ticks w + 1 + length cands)"
    using that verify_loop_line [OF last assms(4), of ?exp challengeBytes] now
    by (simp only: session loop) simp
  have intime: "fst (run_session challengeBytes armored w) = None"
    if "clock w (ticks w + 1 + length cands) \<le> ?exp" and "TrimSpace (line @ [10]) = challengeBytes"
    using that verify_loop_line [OF last assms(4), of ?exp challengeBytes] now
    by (simp only: session loop) simp
  show ?thesis
    using shown late intime by (simp add: ChallengeSolveTime_def)
qed

text \<open>
  A mismatch after 30 seconds, then the correct candidate one nanosecond after the
  minute: it is rejected, the mismatch has not extended the minute.
\<close>

theorem expiry_fixed_at_creation_witness:
  "fst (run_session [0x61, 0x62] ''-----BEGIN PGP MESSAGE-----''
         (example_world [0x78, 0x0A, 0x61, 0x62, 0x0A] [0, 30000000000, 60000000001] [] None))
     = Some (ErrorString ''challenge has expired'')
   \<and> PrintExpiry 60000000000
       \<in> set (trace (snd (run_session [0x61, 0x62] ''-----BEGIN PGP MESSAGE-----''
         (example_world [0x78, 0x0A, 0x61, 0x62, 0x0A] [0, 30000000000, 60000000001] [] None))))"
proof -
  let ?w = "example_world [0x78, 0x0A, 0x61, 0x62, 0x0A] [0, 30000000000, 60000000001] [] None"
  let ?cands = "[[0x78]] :: byte list list"
  have 1: "temp_file ?w = Inr ''/tmp/pgp-mfa-challenge-1''"
    by (simp add: example_world_def)
  have 2: "\<forall>c \<in> set ?cands. 10 \<notin> set c \<and> TrimSpace (c @ [10]) \<noteq> [0x61, 0x62]"
    by (simp add: TrimSpace_examples)
  have 3: "\<forall>i < length ?cands. clock ?w (ticks ?w + 1 + i) \<le> clock ?w (ticks ?w) + ChallengeSolveTime"
    by (simp add: example_world_def example_clock_def ChallengeSolveTime_def)
  have 4: "10 \<notin> set [0x61, 0x62 :: byte]"
    by simp
  have 5: "stdin ?w = concat (map (\<lambda>c. c @ [10]) ?cands) @ [0x61, 0x62] @ 10 # []"
    by (simp add: example_world_def)
  have 6: "clock ?w (ticks ?w) + ChallengeSolveTime < clock ?w (ticks ?w + 1 + length ?cands)"
    by (simp add: example_world_def example_clock_def ChallengeSolveTime_def)
  have 7: "clock ?w (ticks ?w) + ChallengeSolveTime = 60000000000"
    by (simp add: example_world_def example_clock_def ChallengeSolveTime_def)
  from expiry_fixed_at_creation [OF 1 2 3 4 5, of "''-----BEGIN PGP MESSAGE-----''"] 6 7
  show ?thesis by (simp add: example_world_def example_clock_def)
qed


subsection \<open>The length argument\<close>

text \<open>
  C3. An invalid length fails fast. With \<open>n\<close> the length that \<^verbatim>\<open>challenge\<close> parses from
  its first argument: when \<open>n \<le> 0\<close> or \<open>n > 512\<close> the command returns
  \<^verbatim>\<open>ErrChallengeLength\<close>, and when \<open>n\<close> is in range and not a power of two it returns
  \<^verbatim>\<open>ErrChallengePow\<close>. In both cases the world is returned as it was: the trace has no
  key lookup, no read of the random source (so no secret) and no encryption, and
  neither the input nor the clock has been touched.
\<close>

theorem invalid_length_fails_fast:
  assumes "args \<noteq> []" and "fst (Atoi (args ! 0)) = n"
  shows "((n \<le> 0 \<or> 512 < n) \<longrightarrow> challenge args w = (Some ErrChallengeLength, w))
         \<and> (1 \<le> n \<and> n \<le> 512 \<and> \<not> power_of_two n
              \<longrightarrow> challenge args w = (Some ErrChallengePow, w))"
proof (intro conjI impI)
  assume "n \<le> 0 \<or> 512 < n"
  then show "challenge args w = (Some ErrChallengeLength, w)"
    using assms by (simp add: challenge_def Let_def)
next
  assume a: "1 \<le> n \<and> n \<le> 512 \<and> \<not> power_of_two n"
  then have "(n AND (n - 1)) \<noteq> 0"
    using and_pred_zero_iff [of n] by simp
  then show "challenge args w = (Some ErrChallengePow, w)"
    using assms a by (simp add: challenge_def Let_def)
qed

text \<open>
  The lengths 15 (scenario 4 of the specification), 513, 0 and -4.
\<close>

lemma Atoi_examples:
  "Atoi ''15'' = (15, None)" "Atoi ''-4'' = (-4, None)" "Atoi ''513'' = (513, None)"
  "Atoi ''0'' = (0, None)" "Atoi ''16'' = (16, None)"
  by code_simp+

lemma not_power_of_two_15: "\<not> power_of_two 15"
  using and_pred_zero_iff [of 15] by simp

theorem invalid_length_fails_fast_witness:
  "challenge [''15'', ''0xCAFE''] (example_world [] [0] [1, 2, 3] None)
     = (Some ErrChallengePow, example_world [] [0] [1, 2, 3] None)
   \<and> challenge [''513''] (example_world [] [0] [1, 2, 3] None)
     = (Some ErrChallengeLength, example_world [] [0] [1, 2, 3] None)
   \<and> challenge [''0''] (example_world [] [0] [1, 2, 3] None)
     = (Some ErrChallengeLength, example_world [] [0] [1, 2, 3] None)
   \<and> challenge [''-4''] (example_world [] [0] [1, 2, 3] None)
     = (Some ErrChallengeLength, example_world [] [0] [1, 2, 3] None)
   \<and> trace (snd (challenge [''15'', ''0xCAFE''] (example_world [] [0] [1, 2, 3] None))) = []"
  using invalid_length_fails_fast [of "[''15'', ''0xCAFE'']" 15 "example_world [] [0] [1, 2, 3] None"]
    invalid_length_fails_fast [of "[''513'']" 513 "example_world [] [0] [1, 2, 3] None"]
    invalid_length_fails_fast [of "[''0'']" 0 "example_world [] [0] [1, 2, 3] None"]
    invalid_length_fails_fast [of "[''-4'']" "-4" "example_world [] [0] [1, 2, 3] None"]
    not_power_of_two_15
  by (simp add: Atoi_examples) (simp add: example_world_def)

text \<open>
  C10, amended. The error of \<^verbatim>\<open>strconv.Atoi\<close> is dropped. For every length argument that
  is not a decimal integer, \<^verbatim>\<open>Atoi\<close> reports an error and the parsed length is 0, or the
  largest or the smallest \<^verbatim>\<open>int\<close> when \<^verbatim>\<open>Atoi\<close> met a number too large before it met
  the offending byte (which needs an argument of 19 bytes or more); in each case the
  command fails with \<^verbatim>\<open>ErrChallengeLength\<close>, never with a parse error. Every length out
  of range is reported as \<^verbatim>\<open>ErrChallengeLength\<close>, a power of two or not, since the range
  is checked first.
\<close>

theorem unparsable_length_rejected:
  assumes "args \<noteq> []"
  shows "(\<not> valid_decimal (args ! 0) \<longrightarrow>
            snd (Atoi (args ! 0)) \<noteq> None
            \<and> fst (Atoi (args ! 0)) \<in> {0, 2 ^ 63 - 1, - (2 ^ 63)}
            \<and> (length (args ! 0) < 19 \<longrightarrow> fst (Atoi (args ! 0)) = 0)
            \<and> challenge args w = (Some ErrChallengeLength, w))
         \<and> (fst (Atoi (args ! 0)) \<le> 0 \<or> 512 < fst (Atoi (args ! 0)) \<longrightarrow>
            challenge args w = (Some ErrChallengeLength, w))"
proof -
  have range: "challenge args w = (Some ErrChallengeLength, w)"
    if "fst (Atoi (args ! 0)) \<le> 0 \<or> 512 < fst (Atoi (args ! 0))"
    using that assms by (simp add: challenge_def Let_def)
  have "fst (Atoi (args ! 0)) \<le> 0 \<or> 512 < fst (Atoi (args ! 0))"
    if "\<not> valid_decimal (args ! 0)"
    using Atoi_invalid [OF that] by auto
  then show ?thesis
    using range Atoi_invalid [of "args ! 0"] by blast
qed

text \<open>
  The argument \<^verbatim>\<open>sixteen\<close> is parsed as 0, and 513 is out of range and not a power of two.
\<close>

theorem unparsable_length_rejected_witness:
  "\<not> valid_decimal ''sixteen'' \<and> Atoi ''sixteen'' = (0, Some ErrSyntax)
   \<and> challenge [''sixteen''] (example_world [] [0] [1, 2, 3] None)
       = (Some ErrChallengeLength, example_world [] [0] [1, 2, 3] None)
   \<and> fst (Atoi ''513'') = 513 \<and> \<not> power_of_two 513
   \<and> challenge [''513''] (example_world [] [0] [1, 2, 3] None)
       = (Some ErrChallengeLength, example_world [] [0] [1, 2, 3] None)"
proof -
  have 1: "\<not> valid_decimal ''sixteen''"
    by (simp add: valid_decimal_def is_digit_def)
  have 2: "Atoi ''sixteen'' = (0, Some ErrSyntax)" and 3: "Atoi ''513'' = (513, None)"
    by code_simp+
  have 4: "\<not> power_of_two 513"
    using and_pred_zero_iff [of 513] by simp
  from unparsable_length_rejected [of "[''sixteen'']" "example_world [] [0] [1, 2, 3] None"]
    unparsable_length_rejected [of "[''513'']" "example_world [] [0] [1, 2, 3] None"]
    1 2 3 4
  show ?thesis by simp
qed

text \<open>
  The claim as stated fails: twenty nines followed by a letter are not a decimal
  integer, and \<^verbatim>\<open>Atoi\<close> returns the largest \<^verbatim>\<open>int\<close> with a range error, not 0.
\<close>

theorem unparsable_length_rejected_counterexample:
  "\<not> valid_decimal ''99999999999999999999x''
   \<and> Atoi ''99999999999999999999x'' = (9223372036854775807, Some ErrRange)
   \<and> fst (Atoi ''99999999999999999999x'') \<noteq> 0"
  by (simp add: valid_decimal_def is_digit_def Atoi_def ParseInt_def ParseUint_def Let_def
      maxUint64_def)


subsection \<open>The encoder\<close>

lemma stage_of_message_prefixes:
  "stage_of_message (''failed to create pgp context: '' @ m) = Some ContextStage"
  "stage_of_message (''failed to encrypt challenge: '' @ m) = Some EncryptStage"
  "stage_of_message (''failed to armor challenge: '' @ m) = Some ArmorStage"
  by (simp_all add: stage_of_message_def)

text \<open>
  C8. \<^verbatim>\<open>encryptChallenge\<close> fails at three places and says which. When the encryption
  handle for the recipient cannot be built, the error is \<^verbatim>\<open>failed to create pgp context:\<close>
  followed by the provider's message; when the encryption fails, \<^verbatim>\<open>failed to encrypt
  challenge:\<close>; when the armoring fails, \<^verbatim>\<open>failed to armor challenge:\<close>. Whatever the
  provider's message is, the stage can be read off the error. When the three calls
  succeed the result is the pair of the raw bytes of the message and its armored text.
  There is no other failure: every error returned names one of the three stages.
\<close>

theorem encryptChallenge_stages:
  "(\<forall>e. pgp_New w key = Inl e \<longrightarrow>
       fst (encryptChallenge key chal w)
         = Inl (ErrorString (''failed to create pgp context: '' @ Error e))
       \<and> stage_of_message (''failed to create pgp context: '' @ Error e) = Some ContextStage)
   \<and> (\<forall>ctx e. pgp_New w key = Inr ctx \<and> pgp_Encrypt w ctx chal = Inl e \<longrightarrow>
       fst (encryptChallenge key chal w)
         = Inl (ErrorString (''failed to encrypt challenge: '' @ Error e))
       \<and> stage_of_message (''failed to encrypt challenge: '' @ Error e) = Some EncryptStage)
   \<and> (\<forall>ctx msg e. pgp_New w key = Inr ctx \<and> pgp_Encrypt w ctx chal = Inr msg
         \<and> pgp_Armor w msg = Inl e \<longrightarrow>
       fst (encryptChallenge key chal w)
         = Inl (ErrorString (''failed to armor challenge: '' @ Error e))
       \<and> stage_of_message (''failed to armor challenge: '' @ Error e) = Some ArmorStage)
   \<and> (\<forall>ctx msg armored. pgp_New w key = Inr ctx \<and> pgp_Encrypt w ctx chal = Inr msg
         \<and> pgp_Armor w msg = Inr armored \<longrightarrow>
       fst (encryptChallenge key chal w) = Inr (pgp_Bytes w msg, armored))
   \<and> (\<forall>err. fst (encryptChallenge key chal w) = Inl err \<longrightarrow>
       stage_of_message (Error err) \<in> {Some ContextStage, Some EncryptStage, Some ArmorStage})"
  (is "?context \<and> ?encrypt \<and> ?armor \<and> ?success \<and> ?only")
proof -
  have result:
    "(\<forall>e. pgp_New w key = Inl e \<longrightarrow>
       fst (encryptChallenge key chal w)
         = Inl (ErrorString (''failed to create pgp context: '' @ Error e)))
     \<and> (\<forall>ctx e. pgp_New w key = Inr ctx \<and> pgp_Encrypt w ctx chal = Inl e \<longrightarrow>
       fst (encryptChallenge key chal w)
         = Inl (ErrorString (''failed to encrypt challenge: '' @ Error e)))
     \<and> (\<forall>ctx msg e. pgp_New w key = Inr ctx \<and> pgp_Encrypt w ctx chal = Inr msg
         \<and> pgp_Armor w msg = Inl e \<longrightarrow>
       fst (encryptChallenge key chal w)
         = Inl (ErrorString (''failed to armor challenge: '' @ Error e)))
     \<and> (\<forall>ctx msg armored. pgp_New w key = Inr ctx \<and> pgp_Encrypt w ctx chal = Inr msg
         \<and> pgp_Armor w msg = Inr armored \<longrightarrow>
       fst (encryptChallenge key chal w) = Inr (pgp_Bytes w msg, armored))"
    by (simp add: encryptChallenge_def Errorf_def Let_def)
  have stages: "?context \<and> ?encrypt \<and> ?armor \<and> ?success"
    unfolding stage_of_message_prefixes simp_thms by (rule result)
  have ?only
  proof (intro allI impI)
    fix err
    assume failed: "fst (encryptChallenge key chal w) = Inl err"
    show "stage_of_message (Error err) \<in> {Some ContextStage, Some EncryptStage, Some ArmorStage}"
    proof (cases "pgp_New w key")
      case (Inl e)
      with stages failed have "Error err = ''failed to create pgp context: '' @ Error e"
        by auto
      then show ?thesis
        by (simp only: stage_of_message_prefixes) simp
    next
      case ctx: (Inr ctx)
      show ?thesis
      proof (cases "pgp_Encrypt w ctx chal")
        case (Inl e)
        with stages failed ctx have "Error err = ''failed to encrypt challenge: '' @ Error e"
          by auto
        then show ?thesis
          by (simp only: stage_of_message_prefixes) simp
      next
        case msg: (Inr msg)
        show ?thesis
        proof (cases "pgp_Armor w msg")
          case (Inl e)
          with stages failed ctx msg have "Error err = ''failed to armor challenge: '' @ Error e"
            by auto
          then show ?thesis
            by (simp only: stage_of_message_prefixes) simp
        next
          case (Inr armored)
          with stages failed ctx msg show ?thesis
            by auto
        qed
      qed
    qed
  qed
  with stages show ?thesis
    by blast
qed

text \<open>
  A provider failing at each stage in turn, and one that succeeds.
\<close>

theorem encryptChallenge_stages_witness:
  "fst (encryptChallenge ''CAFE'' [0x61, 0x62] (example_world [] [0] [] (Some ContextStage)))
     = Inl (ErrorString ''failed to create pgp context: no recipient'')
   \<and> fst (encryptChallenge ''CAFE'' [0x61, 0x62] (example_world [] [0] [] (Some EncryptStage)))
     = Inl (ErrorString ''failed to encrypt challenge: bad key'')
   \<and> fst (encryptChallenge ''CAFE'' [0x61, 0x62] (example_world [] [0] [] (Some ArmorStage)))
     = Inl (ErrorString ''failed to armor challenge: bad packet'')
   \<and> fst (encryptChallenge ''CAFE'' [0x61, 0x62] (example_world [] [0] [] None))
     = Inr ([0x62, 0x61], ''-----BEGIN PGP MESSAGE-----'')"
proof -
  have 1: "pgp_New (example_world [] [0] [] (Some ContextStage)) ''CAFE''
             = Inl (ErrorString ''no recipient'')"
    and 2: "pgp_New (example_world [] [0] [] (Some EncryptStage)) ''CAFE'' = Inr ''CAFE''
            \<and> pgp_Encrypt (example_world [] [0] [] (Some EncryptStage)) ''CAFE'' [0x61, 0x62]
                = Inl (ErrorString ''bad key'')"
    and 3: "pgp_New (example_world [] [0] [] (Some ArmorStage)) ''CAFE'' = Inr ''CAFE''
            \<and> pgp_Encrypt (example_world [] [0] [] (Some ArmorStage)) ''CAFE'' [0x61, 0x62]
                = Inr [0x62, 0x61]
            \<and> pgp_Armor (example_world [] [0] [] (Some ArmorStage)) [0x62, 0x61]
                = Inl (ErrorString ''bad packet'')"
    and 4: "pgp_New (example_world [] [0] [] None) ''CAFE'' = Inr ''CAFE''
            \<and> pgp_Encrypt (example_world [] [0] [] None) ''CAFE'' [0x61, 0x62] = Inr [0x62, 0x61]
            \<and> pgp_Armor (example_world [] [0] [] None) [0x62, 0x61]
                = Inr ''-----BEGIN PGP MESSAGE-----''
            \<and> pgp_Bytes (example_world [] [0] [] None) [0x62, 0x61] = [0x62, 0x61]"
    by (simp_all add: example_world_def)
  from encryptChallenge_stages [of "example_world [] [0] [] (Some ContextStage)" "''CAFE''" "[0x61, 0x62]"]
    1
  have a: "fst (encryptChallenge ''CAFE'' [0x61, 0x62] (example_world [] [0] [] (Some ContextStage)))
     = Inl (ErrorString ''failed to create pgp context: no recipient'')"
    by simp
  from encryptChallenge_stages [of "example_world [] [0] [] (Some EncryptStage)" "''CAFE''" "[0x61, 0x62]"]
    2
  have b: "fst (encryptChallenge ''CAFE'' [0x61, 0x62] (example_world [] [0] [] (Some EncryptStage)))
     = Inl (ErrorString ''failed to encrypt challenge: bad key'')"
    by simp
  from encryptChallenge_stages [of "example_world [] [0] [] (Some ArmorStage)" "''CAFE''" "[0x61, 0x62]"]
    3
  have c: "fst (encryptChallenge ''CAFE'' [0x61, 0x62] (example_world [] [0] [] (Some ArmorStage)))
     = Inl (ErrorString ''failed to armor challenge: bad packet'')"
    by simp
  from encryptChallenge_stages [of "example_world [] [0] [] None" "''CAFE''" "[0x61, 0x62]"]
    4
  have d: "fst (encryptChallenge ''CAFE'' [0x61, 0x62] (example_world [] [0] [] None))
     = Inr ([0x62, 0x61], ''-----BEGIN PGP MESSAGE-----'')"
    by simp
  from a b c d show ?thesis by simp
qed


end
